theory Spec2Isabelle
  imports Main
begin

section \<open>The form builder of qxl.dialog (mixin \<open>qxl.dialog.MForm\<close>)\<close>

text \<open>
  The mixin turns a map of field descriptions (\<open>formData\<close>) into a form of the
  widget toolkit. The toolkit is not part of the repository: the development keeps
  the objects the mixin creates (model, form, controller, form elements) as
  records with an identity, and the calls it makes on toolkit objects as data
  (the calls a widget received, the log of calls on other objects). A character
  is a code unit below 256.
\<close>

subsection \<open>JavaScript values\<close>

datatype js_value =
    JUndefined
  | JNull
  | JBool bool
  | JNum int
  | JStr string
  | JFunction nat
  | JAsyncValidator nat

text \<open>
  \<open>JFunction n\<close> is a function object and \<open>JAsyncValidator n\<close> an instance of
  \<open>qx.ui.form.validation.AsyncValidator\<close>, both known by identity only.
\<close>

fun typeof_js :: "js_value \<Rightarrow> string" where
  "typeof_js JUndefined = ''undefined''"
| "typeof_js JNull = ''object''"
| "typeof_js (JBool b) = ''boolean''"
| "typeof_js (JNum n) = ''number''"
| "typeof_js (JStr s) = ''string''"
| "typeof_js (JFunction f) = ''function''"
| "typeof_js (JAsyncValidator a) = ''object''"

fun truthy :: "js_value \<Rightarrow> bool" where
  "truthy JUndefined = False"
| "truthy JNull = False"
| "truthy (JBool b) = b"
| "truthy (JNum n) = (n \<noteq> 0)"
| "truthy (JStr s) = (s \<noteq> [])"
| "truthy (JFunction f) = True"
| "truthy (JAsyncValidator a) = True"

fun isString :: "js_value \<Rightarrow> bool" where
  "isString (JStr s) = True"
| "isString v = False"

text \<open>
  A member of which the code asks \<open>typeof ... == "object"\<close>: null, or a map with
  its keys in the order of \<open>Object.keys\<close>.
\<close>

datatype js_object =
    ONull
  | OMap "(string \<times> js_value) list"

text \<open>
  \<open>String.prototype.toLowerCase\<close>. Below 256 the characters with a lower-case
  form are the letters \<open>A\<close> to \<open>Z\<close> and the letters from \<open>0xC0\<close> to \<open>0xDE\<close> but
  \<open>0xD7\<close>, the multiplication sign; the lower-case form lies \<open>0x20\<close> further.
\<close>

definition upper_chars :: string where
  "upper_chars =
     ''ABCDEFGHIJKLMNOPQRSTUVWXYZ'' @
     [CHR 0xC0, CHR 0xC1, CHR 0xC2, CHR 0xC3, CHR 0xC4, CHR 0xC5, CHR 0xC6, CHR 0xC7,
      CHR 0xC8, CHR 0xC9, CHR 0xCA, CHR 0xCB, CHR 0xCC, CHR 0xCD, CHR 0xCE, CHR 0xCF,
      CHR 0xD0, CHR 0xD1, CHR 0xD2, CHR 0xD3, CHR 0xD4, CHR 0xD5, CHR 0xD6,
      CHR 0xD8, CHR 0xD9, CHR 0xDA, CHR 0xDB, CHR 0xDC, CHR 0xDD, CHR 0xDE]"

definition lower_chars :: string where
  "lower_chars =
     ''abcdefghijklmnopqrstuvwxyz'' @
     [CHR 0xE0, CHR 0xE1, CHR 0xE2, CHR 0xE3, CHR 0xE4, CHR 0xE5, CHR 0xE6, CHR 0xE7,
      CHR 0xE8, CHR 0xE9, CHR 0xEA, CHR 0xEB, CHR 0xEC, CHR 0xED, CHR 0xEE, CHR 0xEF,
      CHR 0xF0, CHR 0xF1, CHR 0xF2, CHR 0xF3, CHR 0xF4, CHR 0xF5, CHR 0xF6,
      CHR 0xF8, CHR 0xF9, CHR 0xFA, CHR 0xFB, CHR 0xFC, CHR 0xFD, CHR 0xFE]"

definition lower_char :: "char \<Rightarrow> char" where
  "lower_char c =
     (case map_of (zip upper_chars lower_chars) c of
        Some l \<Rightarrow> l
      | None \<Rightarrow> c)"

definition toLowerCase :: "string \<Rightarrow> string" where
  "toLowerCase s = map lower_char s"

text \<open>\<open>s.substr(start, len)\<close>: a negative length gives the empty string.\<close>

definition substr :: "string \<Rightarrow> nat \<Rightarrow> int \<Rightarrow> string" where
  "substr s start len = take (nat len) (drop start s)"

text \<open>\<open>s.replace(/;\n/g, "")\<close>: every semicolon followed by a line feed is removed.\<close>

fun strip_semicolon_newline :: "string \<Rightarrow> string" where
  "strip_semicolon_newline (c # d # cs) =
     (if c = CHR '';'' \<and> d = CHR 0x0A then strip_semicolon_newline cs
      else c # strip_semicolon_newline (d # cs))"
| "strip_semicolon_newline cs = cs"

subsection \<open>The field descriptions\<close>

text \<open>
  One entry of \<open>formData\<close>, an object. Members the code tests with \<open>typeof\<close>,
  \<open>!== undefined\<close> or for truth are JavaScript values (\<open>JUndefined\<close> when the member
  is absent). \<open>validation\<close> is \<open>None\<close> when the member is not truthy; a truthy
  member is read member by member. \<open>properties\<close> and \<open>userdata\<close> are \<open>None\<close> when
  \<open>typeof\<close> does not give \<open>"object"\<close>, which it does for null. \<open>events\<close> is \<open>None\<close>
  when \<open>qx.lang.Type.isObject\<close> is false, as it is for null; otherwise it holds
  the members in the order of \<open>for ... in\<close>.
\<close>

record validation =
  v_required :: js_value
  v_validator :: js_value
  v_errorMessage :: js_value
  v_proxy :: js_value
  v_method :: js_value
  v_invalidMessage :: js_value

record fieldData =
  fd_type :: js_value
  fd_label :: js_value
  fd_value :: js_value
  fd_validation :: "validation option"
  fd_width :: js_value
  fd_placeholder :: js_value
  fd_toolTipText :: js_value
  fd_enabled :: js_value
  fd_properties :: "js_object option"
  fd_userdata :: "js_object option"
  fd_events :: "(string \<times> js_value) list option"

text \<open>
  \<open>formData\<close> itself: the own properties of the map in the order of
  \<open>Object.getOwnPropertyNames\<close>, each name once.
\<close>

type_synonym formData = "(string \<times> fieldData) list"

subsection \<open>Toolkit objects\<close>

text \<open>The validator that ends up attached to a form element.\<close>

datatype attached =
    NoValidator
  | Given js_value
  | RegExpValidator string js_value
  | AsyncProxyValidator nat js_value js_value

text \<open>
  \<open>NoValidator\<close> is the null the variable \<open>validator\<close> starts with, \<open>Given v\<close> a value
  the code has at hand (the member \<open>validation.validator\<close> as it is, or what
  \<open>qx.util.Validate[name]()\<close> returned), \<open>RegExpValidator src msg\<close> the result of
  \<open>qx.util.Validate.regExp(new RegExp(src), msg)\<close> (the pattern is kept as text), and
  \<open>AsyncProxyValidator proxy method message\<close> the
  \<open>qx.ui.form.validation.AsyncValidator\<close> built around \<open>validationFunc\<close>.
\<close>

datatype wcall =
    Configure string "js_value list"
  | SetUserData string js_value
  | SetRequired bool
  | SetWidth js_value
  | SetPlaceholder js_value
  | SetToolTipText js_value
  | SetEnabled js_value
  | SetProperties js_object
  | AddListener string js_value
  | SetQxObjectId string

record widget =
  wclass :: string
  wcalls :: "wcall list"

datatype target = Target nat string string bool

datatype form_item =
    GroupHeader js_value
  | FormItem nat js_value attached

record form_obj =
  fid :: nat
  items :: "form_item list"
  owned :: "nat list"

record controller =
  cid :: nat
  cmodel :: "nat option"
  targets :: "target list"

record model_obj =
  mid :: nat
  props :: "(string \<times> js_value) list"

datatype view =
    DefaultRenderer nat int
  | CustomRenderer nat nat

datatype obj =
    ModelObj nat
  | ControllerObj nat
  | FormObj nat
  | ValidationManagerOf nat

datatype arg =
    ArgForm nat
  | ArgThis
  | ArgNative "(string \<times> js_value) list option"

datatype tcall =
    RemoveAllBindings obj
  | Dispose obj
  | BindValidToOkButton obj
  | AddListenerOnce string
  | Call nat js_value "arg list"
  | ValidateForm nat
  | LogError string
  | LogWarn string
  | Hide
  | FireEvent string

subsection \<open>Handlers and the registry of field types\<close>

text \<open>
  The handlers registered for a field type are functions of the caller; they
  are called with the dialog as \<open>this\<close>. The development gives each the part of the
  dialog its documentation names: \<open>initElement\<close> returns the new form element
  (none for a header) and the group headers it adds to the form,
  \<open>addToFormController\<close> the targets it adds to the form controller, and
  \<open>postProcess\<close> the calls it makes on the element.
\<close>

record init_result =
  element :: "widget option"
  groupHeaders :: "js_value list"

record handlers =
  initElement :: "string \<Rightarrow> fieldData \<Rightarrow> string \<Rightarrow> init_result"
  addToFormController :: "(string \<Rightarrow> fieldData \<Rightarrow> string \<Rightarrow> nat \<Rightarrow> target list) option"
  postProcess :: "(string \<Rightarrow> fieldData \<Rightarrow> string \<Rightarrow> nat \<Rightarrow> wcall list) option"

text \<open>
  A class of \<open>qxl.dialog.formElement\<close>: its static \<open>register()\<close> calls
  \<open>registerFormElementHandlers(name, this._registration)\<close> with a name written in
  the class; \<open>registeredAs\<close> is that name.
\<close>

record formElementClass =
  registeredAs :: string
  registration :: handlers

datatype internal_class =
    CheckBox | ComboBox | DateField | GroupHeaderClass | Label | ListClass
  | PasswordField | RadioGroup | SelectBox | Spinner | TextArea | TextField

text \<open>
  \<open>TextArea\<close> and \<open>GroupHeader\<close> register as \<open>textarea\<close> and \<open>groupheader\<close>. The
  other ten classes are not among the sources: the name each passes in its
  \<open>register()\<close> is the parameter \<open>absentName\<close>, and the handlers of all twelve the
  parameter \<open>registrations\<close>.
\<close>

definition formElement_class ::
  "(internal_class \<Rightarrow> string) \<Rightarrow> (internal_class \<Rightarrow> handlers) \<Rightarrow> internal_class \<Rightarrow> formElementClass" where
  "formElement_class absentName registrations c =
     \<lparr> registeredAs =
         (case c of TextArea \<Rightarrow> ''textarea'' | GroupHeaderClass \<Rightarrow> ''groupheader'' | _ \<Rightarrow> absentName c),
       registration = registrations c \<rparr>"

text \<open>The static \<open>_internalFormElements\<close>, as the class definition writes it.\<close>

definition internalFormElements_table :: "(string \<times> internal_class) list" where
  "internalFormElements_table =
     [ (''checkbox'', CheckBox),
       (''combobox'', ComboBox),
       (''datefield'', DateField),
       (''groupheader'', GroupHeaderClass),
       (''label'', Label),
       (''list'', ListClass),
       (''passwordfield'', PasswordField),
       (''radiogroup'', RadioGroup),
       (''selectbox'', SelectBox),
       (''spiinner'', Spinner),
       (''textarea'', TextArea),
       (''textfield'', TextField) ]"

definition internalFormElements_initial ::
  "(internal_class \<Rightarrow> string) \<Rightarrow> (internal_class \<Rightarrow> handlers) \<Rightarrow> (string \<times> formElementClass) list" where
  "internalFormElements_initial absentName registrations =
     map (\<lambda>(fieldType, c). (fieldType, formElement_class absentName registrations c))
       internalFormElements_table"

subsection \<open>The state\<close>

text \<open>
  The first two fields are the statics of \<open>qxl.dialog.MForm\<close>, the others the
  members and properties of one dialog. \<open>widgets\<close> holds the form elements by
  identity, \<open>nextId\<close> the next unused identity, and \<open>calls\<close> the calls made so far
  on toolkit objects other than form elements.
\<close>

record state =
  registeredFormElements :: "string \<rightharpoonup> handlers"
  internalFormElements :: "(string \<times> formElementClass) list option"
  formElements :: "(string \<rightharpoonup> nat) option"
  formController :: "controller option"
  form :: "form_obj option"
  formContainer :: "view list"
  model :: "model_obj option"
  callback :: "nat option"
  contextObj :: js_value
  formReadyFunction :: "nat option"
  setupFormRendererFunction :: "nat option"
  finalizeFunction :: "nat option"
  labelColumnWidth :: int
  ownedQxObjects :: "string \<rightharpoonup> nat"
  widgets :: "nat \<rightharpoonup> widget"
  nextId :: nat
  calls :: "tcall list"

text \<open>
  What a method did: it returned, or it threw. \<open>MissingTypeMember\<close> and
  \<open>UnknownFieldType\<close> are the two errors \<open>_applyFormData\<close> makes itself, \<open>TypeError\<close>
  and \<open>SyntaxError\<close> those of the engine (a member of undefined or null, a call of
  what is no function, a text \<open>RegExp\<close> rejects), and \<open>Raised n\<close> an error a function
  of the toolkit threw, known by identity only.
\<close>

datatype error =
    MissingTypeMember
  | UnknownFieldType string
  | TypeError
  | SyntaxError
  | Raised nat

text \<open>The message of an error \<open>_applyFormData\<close> makes.\<close>

fun message :: "error \<Rightarrow> string option" where
  "message MissingTypeMember = Some ''Missing type member {String}''"
| "message (UnknownFieldType fieldType) = Some (''Field type '' @ fieldType @ '' is unknown'')"
| "message e = None"

datatype outcome = Done | Threw error

subsection \<open>Registration\<close>

text \<open>
  \<open>name in qxl.dialog.MForm._registeredFormElements\<close>. The table is a plain object:
  besides the names written into it, \<open>in\<close> finds the names every object inherits
  from \<open>Object.prototype\<close>. Reading one of those gives a function or an object
  without the members of a handler map. (Writing the name \<open>__proto__\<close> makes the
  handlers the prototype of the table: \<open>in\<close> finds the name and reading it gives
  the handlers, as the map of the development does.)
\<close>

definition inherited_names :: "string list" where
  "inherited_names =
     [''constructor'', ''__defineGetter__'', ''__defineSetter__'', ''hasOwnProperty'',
      ''__lookupGetter__'', ''__lookupSetter__'', ''isPrototypeOf'',
      ''propertyIsEnumerable'', ''toString'', ''valueOf'', ''__proto__'', ''toLocaleString'']"

definition has_property :: "(string \<rightharpoonup> handlers) \<Rightarrow> string \<Rightarrow> bool" where
  "has_property table name \<longleftrightarrow> name \<in> dom table \<or> name \<in> set inherited_names"

definition registerFormElementHandlers :: "string \<Rightarrow> handlers \<Rightarrow> state \<Rightarrow> state" where
  "registerFormElementHandlers fieldType handlers s =
     s\<lparr> registeredFormElements := (registeredFormElements s)(toLowerCase fieldType \<mapsto> handlers) \<rparr>"

text \<open>
  \<open>register()\<close> of a form element class. The classes call
  \<open>qxl.dialog.Dialog.registerFormElementHandlers\<close>; class \<open>Dialog\<close> is not among the
  sources, and the call is taken to reach the static of \<open>MForm\<close> above, whose
  table \<open>_init\<close> and \<open>_applyFormData\<close> read.
\<close>

definition register :: "formElementClass \<Rightarrow> state \<Rightarrow> state" where
  "register c s = registerFormElementHandlers (registeredAs c) (registration c) s"

text \<open>The loop of \<open>_init\<close> over the keys of \<open>_internalFormElements\<close>.\<close>

fun register_internal :: "(string \<times> formElementClass) list \<Rightarrow> state \<Rightarrow> state" where
  "register_internal [] s = s"
| "register_internal ((fieldType, c) # rest) s =
     register_internal rest
       (if has_property (registeredFormElements s) fieldType then s else register c s)"

definition init :: "state \<Rightarrow> state" where
  "init s =
     (let s1 = s\<lparr> formElements := Some Map.empty \<rparr> in
      case internalFormElements s1 of
        None \<Rightarrow> s1
      | Some table \<Rightarrow> (register_internal table s1)\<lparr> internalFormElements := None \<rparr>)"

subsection \<open>What lies outside the dialog\<close>

text \<open>
  What \<open>qx.util.Validate[name]\<close> is: a value that is not truthy (undefined, when
  the class has no such member), a truthy value that is no function, or a
  function, with what the call \<open>qx.util.Validate[name]()\<close> does: it throws an
  error, or it returns a value.
\<close>

datatype member =
    Falsy
  | NotCallable
  | Throwing nat
  | Returning js_value

text \<open>
  \<open>Validate_member name\<close> is \<open>qx.util.Validate[name]\<close>;
  \<open>RegExp_valid src\<close> tells whether \<open>new RegExp(src)\<close> returns, rather than throwing
  a \<open>SyntaxError\<close>;
  \<open>eval_js code\<close> is the value of \<open>eval(code)\<close>, or \<open>None\<close> when it throws;
  \<open>createModel data\<close> gives the properties, with their values, of the model
  \<open>qx.data.marshal.Json.createModel(data)\<close> returns (the call is taken to return:
  the assertion a debug build makes on a name that is no identifier is not part
  of the development);
  \<open>module_objectid\<close> is \<open>qx.core.Environment.get("module.objectid") === true\<close>, and
  \<open>qx_debug\<close> is \<open>qx.core.Environment.get("qx.debug")\<close>: in a debug build
  \<open>addListener\<close> asserts that the listener is a function.
\<close>

record environment =
  Validate_member :: "string \<Rightarrow> member"
  RegExp_valid :: "string \<Rightarrow> bool"
  eval_js :: "string \<Rightarrow> js_value option"
  createModel :: "(string \<times> js_value) list \<Rightarrow> (string \<times> js_value) list"
  module_objectid :: bool
  qx_debug :: bool

text \<open>
  The marshaler of the toolkit names a property by the key without the
  characters \<open>key.replace(/-|\.|\s+/g, "")\<close> removes: the hyphen, the full stop and
  white space. A key that gives the name of an earlier key sets that property
  again.
\<close>

definition white_space :: string where
  "white_space = [CHR 0x09, CHR 0x0A, CHR 0x0B, CHR 0x0C, CHR 0x0D, CHR 0x20, CHR 0xA0]"

definition property_name :: "string \<Rightarrow> string" where
  "property_name key = filter (\<lambda>c. c \<notin> set (''-.'' @ white_space)) key"

fun set_property :: "string \<Rightarrow> js_value \<Rightarrow> (string \<times> js_value) list \<Rightarrow> (string \<times> js_value) list" where
  "set_property name v [] = [(name, v)]"
| "set_property name v ((n, old) # rest) =
     (if n = name then (n, v) # rest else (n, old) # set_property name v rest)"

definition Json_createModel :: "(string \<times> js_value) list \<Rightarrow> (string \<times> js_value) list" where
  "Json_createModel data = foldl (\<lambda>ps (key, v). set_property (property_name key) v ps) [] data"

subsection \<open>Small steps on the state\<close>

definition log_calls :: "tcall list \<Rightarrow> state \<Rightarrow> state" where
  "log_calls cs s = s\<lparr> calls := calls s @ cs \<rparr>"

text \<open>\<open>f.call(context, ...)\<close> for a function property \<open>f\<close> that may be null.\<close>

definition call_function :: "nat option \<Rightarrow> js_value \<Rightarrow> arg list \<Rightarrow> tcall list" where
  "call_function f ctx args = (case f of None \<Rightarrow> [] | Some g \<Rightarrow> [Call g ctx args])"

definition widget_do :: "nat \<Rightarrow> wcall list \<Rightarrow> state \<Rightarrow> state" where
  "widget_do e cs s =
     s\<lparr> widgets :=
          (widgets s)(e := map_option (\<lambda>w. w\<lparr> wcalls := wcalls w @ cs \<rparr>) (widgets s e)) \<rparr>"

subsection \<open>\<open>_applyFormData\<close>: disposing of the previous form\<close>

text \<open>
  Lines 425 to 439. When \<open>getModel()\<close> is null the first \<open>try\<close> block fails on
  \<open>removeAllBindings\<close> and the controller is not disposed.
\<close>

definition dispose_old :: "state \<Rightarrow> state" where
  "dispose_old s =
     (let s1 =
            log_calls
              (case formController s of
                 None \<Rightarrow> []
               | Some c \<Rightarrow>
                   (case model s of
                      None \<Rightarrow> []
                    | Some m \<Rightarrow>
                        [RemoveAllBindings (ModelObj (mid m)), Dispose (ControllerObj (cid c))]))
              s;
          s2 =
            log_calls
              (case form s1 of
                 None \<Rightarrow> []
               | Some f \<Rightarrow>
                   [RemoveAllBindings (ValidationManagerOf (fid f)), Dispose (FormObj (fid f))])
              s1
      in s2\<lparr> formContainer := [] \<rparr>)"

subsection \<open>\<open>_applyFormData\<close>: model, form and controller\<close>

definition onFormReady :: "form_obj \<Rightarrow> state \<Rightarrow> state" where
  "onFormReady f s = log_calls [BindValidToOkButton (ValidationManagerOf (fid f))] s"

definition modelData :: "formData \<Rightarrow> (string \<times> js_value) list" where
  "modelData fd =
     map (\<lambda>(key, d). (key, if fd_value d \<noteq> JUndefined then fd_value d else JNull)) fd"

text \<open>
  Lines 470 to 483: the function is called when it is set; otherwise a listener
  waits for it once.
\<close>

definition formReady_calls :: "nat option \<Rightarrow> js_value \<Rightarrow> nat \<Rightarrow> tcall list" where
  "formReady_calls f ctx formId =
     (case f of
        Some g \<Rightarrow> [Call g ctx [ArgForm formId, ArgThis]]
      | None \<Rightarrow> [AddListenerOnce ''formReadyFunctionChanged''])"

text \<open>Lines 443 to 483.\<close>

definition new_form :: "environment \<Rightarrow> formData \<Rightarrow> state \<Rightarrow> state" where
  "new_form env fd s =
     (let s1 =
            log_calls
              (case model s of
                 None \<Rightarrow> []
               | Some m \<Rightarrow> [RemoveAllBindings (ModelObj (mid m)), Dispose (ModelObj (mid m))])
              s;
          m = \<lparr> mid = nextId s1, props = createModel env (modelData fd) \<rparr>;
          s2 = s1\<lparr> model := Some m, nextId := Suc (nextId s1) \<rparr>;
          f = \<lparr> fid = nextId s2, items = [], owned = [] \<rparr>;
          s3 = s2\<lparr> form := Some f, nextId := Suc (nextId s2) \<rparr>;
          s4 =
            s3\<lparr> ownedQxObjects :=
                  (if module_objectid env
                   then (ownedQxObjects s3)(''form'' \<mapsto> fid f)
                   else ownedQxObjects s3) \<rparr>;
          c = \<lparr> cid = nextId s4, cmodel = map_option mid (model s4), targets = [] \<rparr>;
          s5 = s4\<lparr> formController := Some c, nextId := Suc (nextId s4) \<rparr>;
          s6 = onFormReady f (onFormReady f s5)
      in log_calls (formReady_calls (formReadyFunction s6) (contextObj s6) (fid f)) s6)"

subsection \<open>\<open>_applyFormData\<close>: the validator of a field\<close>

definition instanceof_AsyncValidator :: "js_value \<Rightarrow> bool" where
  "instanceof_AsyncValidator v = (case v of JAsyncValidator a \<Rightarrow> True | _ \<Rightarrow> False)"

text \<open>
  Lines 528 to 544: the validator and the errors reported, or the error thrown.
  The member of \<open>qx.util.Validate\<close> is called when it is truthy, and the call of
  what is no function is a \<open>TypeError\<close>.
\<close>

definition sync_validator ::
  "environment \<Rightarrow> validation \<Rightarrow> error + attached \<times> tcall list" where
  "sync_validator env v =
     (if truthy (v_validator v) then
        (case v_validator v of
           JStr name \<Rightarrow>
             (case Validate_member env name of
                Returning made \<Rightarrow> Inr (Given made, [])
              | Throwing n \<Rightarrow> Inl (Raised n)
              | NotCallable \<Rightarrow> Inl TypeError
              | Falsy \<Rightarrow>
                  if take 1 name = ''/'' then
                    (let source = substr name 1 (int (length name) - 2) in
                     if RegExp_valid env source
                     then Inr (RegExpValidator source (v_errorMessage v), [])
                     else Inl SyntaxError)
                  else Inr (Given (JStr name), [LogError ''Invalid string validator.'']))
         | other \<Rightarrow>
             Inr (Given other,
                  if \<not> instanceof_AsyncValidator other \<and> typeof_js other \<noteq> ''function''
                  then [LogError ''Invalid validator.''] else []))
      else Inr (NoValidator, []))"

text \<open>
  Lines 546 to 580: \<open>current\<close> is the validator the lines before left; it stays
  unless the proxy expression evaluates to a function.
\<close>

definition async_validator ::
  "environment \<Rightarrow> validation \<Rightarrow> attached \<Rightarrow> attached \<times> tcall list" where
  "async_validator env v current =
     (if isString (v_proxy v) \<and> isString (v_method v) then
        (case v_proxy v of
           JStr p \<Rightarrow>
             (let cleaned = strip_semicolon_newline p;
                  (proxy, warned) =
                    (case eval_js env (''proxy = '' @ cleaned @ '';'') of
                       None \<Rightarrow> (JStr cleaned, [LogWarn ''Invalid proxy name''])
                     | Some r \<Rightarrow> (r, []))
              in case proxy of
                   JFunction f \<Rightarrow>
                     (AsyncProxyValidator f (v_method v) (v_invalidMessage v), warned)
                 | _ \<Rightarrow> (current, warned))
         | _ \<Rightarrow> (current, []))
      else (current, []))"

text \<open>
  Lines 521 to 581, for a form element that exists: the calls on the element,
  the validator or the error thrown, and the calls logged.
\<close>

definition validation_block ::
  "environment \<Rightarrow> fieldData \<Rightarrow> wcall list \<times> (error + attached) \<times> tcall list" where
  "validation_block env d =
     (case fd_validation d of
        None \<Rightarrow> ([], Inr NoValidator, [])
      | Some v \<Rightarrow>
          (let req = (if truthy (v_required v) then [SetRequired True] else []) in
           case sync_validator env v of
             Inl err \<Rightarrow> (req, Inl err, [])
           | Inr (validator1, logged1) \<Rightarrow>
               (let (validator2, logged2) = async_validator env v validator1
                in (req, Inr validator2, logged1 @ logged2))))"

subsection \<open>\<open>_applyFormData\<close>: the other members of a field\<close>

text \<open>Lines 587 to 610.\<close>

definition property_calls :: "fieldData \<Rightarrow> wcall list" where
  "property_calls d =
     (if fd_width d \<noteq> JUndefined then [SetWidth (fd_width d)] else []) @
     (if fd_placeholder d \<noteq> JUndefined then [SetPlaceholder (fd_placeholder d)] else []) @
     (if fd_toolTipText d \<noteq> JUndefined then [SetToolTipText (fd_toolTipText d)] else []) @
     (if fd_enabled d \<noteq> JUndefined then [SetEnabled (fd_enabled d)] else []) @
     (case fd_properties d of None \<Rightarrow> [] | Some ps \<Rightarrow> [SetProperties ps])"

text \<open>Lines 620 to 625: \<open>Object.keys(null)\<close> is a \<open>TypeError\<close>.\<close>

definition userdata_calls :: "fieldData \<Rightarrow> error + wcall list" where
  "userdata_calls d =
     (case fd_userdata d of
        None \<Rightarrow> Inr []
      | Some ONull \<Rightarrow> Inl TypeError
      | Some (OMap ud) \<Rightarrow> Inr (map (\<lambda>(k, v). SetUserData k v) ud))"

text \<open>
  Lines 630 to 652: a handler that is a string is evaluated, one that is a
  function is taken as it is, and anything else ends in a warning; so does a
  failing evaluation, and a failing \<open>addListener\<close>, which lies in the same \<open>try\<close>
  block.
\<close>

definition invalid_handler_warning :: "string \<Rightarrow> string \<Rightarrow> string" where
  "invalid_handler_warning evType key =
     ''Invalid '' @ [CHR 0x27] @ evType @ [CHR 0x27] @ '' event handler for form element ''
       @ [CHR 0x27] @ key @ [CHR 0x27] @ ''.''"

fun event_calls ::
  "environment \<Rightarrow> string \<Rightarrow> (string \<times> js_value) list \<Rightarrow> wcall list \<times> tcall list" where
  "event_calls env key [] = ([], [])"
| "event_calls env key ((evType, h) # rest) =
     (let func =
            (case h of
               JStr code \<Rightarrow> eval_js env (''('' @ code @ '')'')
             | JFunction f \<Rightarrow> Some h
             | _ \<Rightarrow> None);
          (listeners, warned) = event_calls env key rest
      in case func of
           Some f \<Rightarrow>
             if qx_debug env \<and> typeof_js f \<noteq> ''function''
             then (listeners, LogWarn (invalid_handler_warning evType key) # warned)
             else (AddListener evType f # listeners, warned)
         | None \<Rightarrow> (listeners, LogWarn (invalid_handler_warning evType key) # warned))"

subsection \<open>\<open>_applyFormData\<close>: the loop over the fields\<close>

text \<open>Lines 511 to 516: the handler is called when the type has one.\<close>

definition controller_targets :: "handlers \<Rightarrow> string \<Rightarrow> fieldData \<Rightarrow> string \<Rightarrow> nat \<Rightarrow> target list" where
  "controller_targets h fieldType fieldData key e =
     (case addToFormController h of
        None \<Rightarrow> []
      | Some add \<Rightarrow> add fieldType fieldData key e)"

text \<open>Lines 612 to 617.\<close>

definition postProcess_calls :: "handlers \<Rightarrow> string \<Rightarrow> fieldData \<Rightarrow> string \<Rightarrow> nat \<Rightarrow> wcall list" where
  "postProcess_calls h fieldType fieldData key e =
     (case postProcess h of
        None \<Rightarrow> []
      | Some pp \<Rightarrow> pp fieldType fieldData key e)"

definition event_block :: "environment \<Rightarrow> string \<Rightarrow> fieldData \<Rightarrow> wcall list \<times> tcall list" where
  "event_block env key fieldData =
     (case fd_events fieldData of
        None \<Rightarrow> ([], [])
      | Some evs \<Rightarrow> event_calls env key evs)"

text \<open>\<open>label || ""\<close>.\<close>

definition label_or_empty :: "fieldData \<Rightarrow> js_value" where
  "label_or_empty fieldData = (if truthy (fd_label fieldData) then fd_label fieldData else JStr [])"

text \<open>
  Lines 508 to 666, for the element \<open>w\<close> that \<open>initElement\<close> returned; \<open>e\<close> is its
  identity. The lines on validation and those on \<open>userdata\<close> can throw; the
  element has then received the calls made before.
\<close>

definition add_element ::
  "environment \<Rightarrow> handlers \<Rightarrow> string \<Rightarrow> fieldData \<Rightarrow> string \<Rightarrow> widget \<Rightarrow> state \<Rightarrow> outcome \<times> state" where
  "add_element env h fieldType fieldData key w s =
     (let e = nextId s;
          s1 = s\<lparr> widgets := (widgets s)(e \<mapsto> w), nextId := Suc e \<rparr>;
          s2 = widget_do e [SetUserData ''key'' (JStr key)] s1;
          s3 =
            s2\<lparr> formController :=
                  map_option
                    (\<lambda>c. c\<lparr> targets := targets c @ controller_targets h fieldType fieldData key e \<rparr>)
                    (formController s2) \<rparr>;
          (req, resolved, logged) = validation_block env fieldData;
          s4 = log_calls logged (widget_do e req s3)
      in case resolved of
           Inl err \<Rightarrow> (Threw err, s4)
         | Inr validator \<Rightarrow>
             (let s5 = widget_do e (property_calls fieldData) s4;
                  s6 = widget_do e (postProcess_calls h fieldType fieldData key e) s5
              in case userdata_calls fieldData of
                   Inl err \<Rightarrow> (Threw err, s6)
                 | Inr userdata \<Rightarrow>
                     (let s7 = widget_do e userdata s6;
                          (listeners, warned) = event_block env key fieldData;
                          s8 = log_calls warned (widget_do e listeners s7);
                          s9 =
                            s8\<lparr> form :=
                                  map_option
                                    (\<lambda>f. f\<lparr> items :=
                                               items f @ [FormItem e (label_or_empty fieldData) validator] \<rparr>)
                                    (form s8) \<rparr>;
                          s10 =
                            (widget_do e (if module_objectid env then [SetQxObjectId key] else []) s9)
                              \<lparr> form :=
                                  map_option
                                    (\<lambda>f. f\<lparr> owned :=
                                               owned f @ (if module_objectid env then [e] else []) \<rparr>)
                                    (form s9) \<rparr>
                      in (Done,
                          s10\<lparr> formElements :=
                                 map_option (\<lambda>els. els(key \<mapsto> e)) (formElements s10) \<rparr>))))"

text \<open>
  The body of the loop, lines 486 to 666. A type that \<open>in\<close> finds in the table
  without its having been written there has no \<open>initElement\<close>, and line 501
  ends in a \<open>TypeError\<close>. By the time the loop runs, \<open>_form\<close> and \<open>_formElements\<close> are
  set; were one of them null, the body would end in a \<open>TypeError\<close>.
\<close>

definition build_field :: "environment \<Rightarrow> state \<Rightarrow> string \<times> fieldData \<Rightarrow> outcome \<times> state" where
  "build_field env s entry =
     (let (key, fieldData) = entry in
      case fd_type fieldData of
        JStr t \<Rightarrow>
          (let fieldType = toLowerCase t in
           if \<not> has_property (registeredFormElements s) fieldType
           then (Threw (UnknownFieldType fieldType), s)
           else
             case registeredFormElements s fieldType of
               None \<Rightarrow> (Threw TypeError, s)
             | Some h \<Rightarrow>
                 (case (form s, formElements s) of
                    (Some f, Some els) \<Rightarrow>
                      (let r = initElement h fieldType fieldData key;
                           s1 = s\<lparr> form := Some (f\<lparr> items := items f @ map GroupHeader (groupHeaders r) \<rparr>) \<rparr>
                       in case element r of
                            None \<Rightarrow> (Done, s1)
                          | Some w \<Rightarrow> add_element env h fieldType fieldData key w s1)
                  | _ \<Rightarrow> (Threw TypeError, s)))
      | _ \<Rightarrow> (Threw MissingTypeMember, s))"

fun build_fields :: "environment \<Rightarrow> formData \<Rightarrow> state \<Rightarrow> outcome \<times> state" where
  "build_fields env [] s = (Done, s)"
| "build_fields env (entry # rest) s =
     (case build_field env s entry of
        (Done, s1) \<Rightarrow> build_fields env rest s1
      | (Threw e, s1) \<Rightarrow> (Threw e, s1))"

subsection \<open>\<open>_applyFormData\<close>: rendering, and the whole method\<close>

text \<open>
  What \<open>validate()\<close> of the validation manager does with the validator of an
  item: none (null or undefined) is passed over, an instance of
  \<open>AsyncValidator\<close> is asked to validate, and anything else is called, which is a
  \<open>TypeError\<close> for what is no function.
\<close>

fun can_validate :: "attached \<Rightarrow> bool" where
  "can_validate NoValidator = True"
| "can_validate (Given v) =
     (v = JNull \<or> v = JUndefined \<or> instanceof_AsyncValidator v \<or> typeof_js v = ''function'')"
| "can_validate (RegExpValidator src msg) = True"
| "can_validate (AsyncProxyValidator proxy rpcMethod msg) = True"

fun item_validates :: "form_item \<Rightarrow> bool" where
  "item_validates (GroupHeader v) = True"
| "item_validates (FormItem e l validator) = can_validate validator"

text \<open>
  Lines 670 to 699. The renderer is added, then the form is validated; when
  that throws, the finalize function is not called.
\<close>

definition render_form :: "state \<Rightarrow> outcome \<times> state" where
  "render_form s =
     (case form s of
        None \<Rightarrow> (Threw TypeError, s)
      | Some f \<Rightarrow>
          (let v =
                 (case setupFormRendererFunction s of
                    None \<Rightarrow> DefaultRenderer (fid f) (labelColumnWidth s)
                  | Some g \<Rightarrow> CustomRenderer g (fid f));
               s1 = s\<lparr> formContainer := formContainer s @ [v] \<rparr>;
               s2 = log_calls [ValidateForm (fid f)] s1
           in if list_all item_validates (items f)
              then (Done,
                    log_calls
                      (call_function (finalizeFunction s2) (contextObj s2) [ArgForm (fid f), ArgThis])
                      s2)
              else (Threw TypeError, s2)))"

definition applyFormData :: "environment \<Rightarrow> formData option \<Rightarrow> state \<Rightarrow> outcome \<times> state" where
  "applyFormData env formData s =
     (let s0 = (if formElements s = None then init s else s);
          s1 = dispose_old s0
      in case formData of
           None \<Rightarrow> (Done, s1)
         | Some fd \<Rightarrow>
             (case build_fields env fd (new_form env fd s1) of
                (Done, s2) \<Rightarrow> render_form s2
              | (Threw e, s2) \<Rightarrow> (Threw e, s2)))"

subsection \<open>\<open>_handleOk\<close>\<close>

definition toNativeObject :: "model_obj option \<Rightarrow> (string \<times> js_value) list option" where
  "toNativeObject m = map_option props m"

definition handleOk :: "state \<Rightarrow> state" where
  "handleOk s =
     (let s1 = log_calls [Hide, FireEvent ''ok''] s;
          s2 =
            log_calls
              (call_function (callback s1) (contextObj s1) [ArgNative (toNativeObject (model s1))])
              s1
      in s2\<lparr> callback := None \<rparr>)"

subsection \<open>The validation function of the asynchronous validator\<close>

text \<open>
  The validator object with its flag \<open>__asyncInProgress\<close> and the validity last
  set on it, and the calls made on the proxy so far.
\<close>

record async_state =
  asyncInProgress :: bool
  validity :: "(js_value \<times> js_value) option"
  proxyCalls :: "(nat \<times> js_value \<times> js_value list) list"

text \<open>Lines 569 to 577.\<close>

definition validationFunc :: "nat \<Rightarrow> js_value \<Rightarrow> async_state \<Rightarrow> js_value \<Rightarrow> async_state" where
  "validationFunc proxy rpcMethod validatorObj v =
     (if \<not> asyncInProgress validatorObj
      then validatorObj\<lparr> asyncInProgress := True,
                         proxyCalls := proxyCalls validatorObj @ [(proxy, rpcMethod, [v])] \<rparr>
      else validatorObj)"

text \<open>
  The callback handed to the proxy, lines 572 to 575. \<open>this_tr\<close> is the result of
  \<open>this.tr("Value is invalid")\<close> for the \<open>this\<close> the proxy calls the callback with,
  \<open>None\<close> when that call fails; it is evaluated only when \<open>message\<close> is not truthy,
  and when it fails the callback ends there.
\<close>

definition proxy_callback ::
  "js_value \<Rightarrow> js_value option \<Rightarrow> js_value \<Rightarrow> async_state \<Rightarrow> async_state" where
  "proxy_callback msg this_tr valid validatorObj =
     (if truthy msg
      then validatorObj\<lparr> validity := Some (valid, msg), asyncInProgress := False \<rparr>
      else case this_tr of
             None \<Rightarrow> validatorObj
           | Some m \<Rightarrow> validatorObj\<lparr> validity := Some (valid, m), asyncInProgress := False \<rparr>)"

text \<open>
  What can happen to the validator built from \<open>proxy\<close>, \<open>method\<close> and \<open>message\<close>:
  the validation manager calls the validation function, or the proxy calls the
  callback back.
\<close>

datatype async_event =
    Validate js_value
  | Deliver js_value "js_value option"

fun async_step :: "nat \<Rightarrow> js_value \<Rightarrow> js_value \<Rightarrow> async_state \<Rightarrow> async_event \<Rightarrow> async_state" where
  "async_step proxy rpcMethod msg st (Validate v) = validationFunc proxy rpcMethod st v"
| "async_step proxy rpcMethod msg st (Deliver valid this_tr) = proxy_callback msg this_tr valid st"

definition async_run ::
  "nat \<Rightarrow> js_value \<Rightarrow> js_value \<Rightarrow> async_event list \<Rightarrow> async_state \<Rightarrow> async_state" where
  "async_run proxy rpcMethod msg evs st = foldl (async_step proxy rpcMethod msg) st evs"

section \<open>Notions used in the proofs\<close>

text \<open>
  \<open>loop_frame s s'\<close>: what the loop over the fields may change between \<open>s\<close> and
  \<open>s'\<close>. The form and the controller only gain items and targets, identities are
  only handed out, the log only grows, and the other members stay as they are.
\<close>

definition loop_frame :: "state \<Rightarrow> state \<Rightarrow> bool" where
  "loop_frame s s' \<longleftrightarrow>
     registeredFormElements s' = registeredFormElements s
     \<and> internalFormElements s' = internalFormElements s
     \<and> formContainer s' = formContainer s
     \<and> model s' = model s
     \<and> callback s' = callback s
     \<and> contextObj s' = contextObj s
     \<and> formReadyFunction s' = formReadyFunction s
     \<and> setupFormRendererFunction s' = setupFormRendererFunction s
     \<and> finalizeFunction s' = finalizeFunction s
     \<and> labelColumnWidth s' = labelColumnWidth s
     \<and> ownedQxObjects s' = ownedQxObjects s
     \<and> nextId s \<le> nextId s'
     \<and> (\<exists>more. calls s' = calls s @ more)
     \<and> (\<exists>tg. formController s' =
            map_option (\<lambda>c. c\<lparr> targets := targets c @ tg \<rparr>) (formController s))
     \<and> (\<exists>more ow. form s' =
            map_option (\<lambda>f. f\<lparr> items := items f @ more, owned := owned f @ ow \<rparr>) (form s))
     \<and> (formElements s' = None \<longleftrightarrow> formElements s = None)"

text \<open>
  \<open>lines_return env d\<close>: for an entry \<open>d\<close> with an element, neither the lines on
  validation nor those on \<open>userdata\<close> throw.
\<close>

definition lines_return :: "environment \<Rightarrow> fieldData \<Rightarrow> bool" where
  "lines_return env d \<longleftrightarrow>
     \<not> isl (fst (snd (validation_block env d))) \<and> \<not> isl (userdata_calls d)"

section \<open>Sample values\<close>

text \<open>
  Concrete values on which the theorems below are evaluated. \<open>class_name\<close> lets
  every form element class register under its own lower-cased name, as
  \<open>TextArea\<close> and \<open>GroupHeader\<close> do. \<open>plain_handlers\<close> and \<open>header_handlers\<close> are
  handlers as a user may register them: the first make an element and bind its
  value, the second add a group header and return no element.
\<close>

definition class_name :: "internal_class \<Rightarrow> string" where
  "class_name c =
     (case c of
        CheckBox \<Rightarrow> ''checkbox'' | ComboBox \<Rightarrow> ''combobox'' | DateField \<Rightarrow> ''datefield''
      | GroupHeaderClass \<Rightarrow> ''groupheader'' | Label \<Rightarrow> ''label'' | ListClass \<Rightarrow> ''list''
      | PasswordField \<Rightarrow> ''passwordfield'' | RadioGroup \<Rightarrow> ''radiogroup''
      | SelectBox \<Rightarrow> ''selectbox'' | Spinner \<Rightarrow> ''spinner'' | TextArea \<Rightarrow> ''textarea''
      | TextField \<Rightarrow> ''textfield'')"

definition plain_handlers :: "string \<Rightarrow> handlers" where
  "plain_handlers cls =
     \<lparr> initElement = (\<lambda>fieldType fieldData key.
         \<lparr> element = Some \<lparr> wclass = cls, wcalls = [] \<rparr>, groupHeaders = [] \<rparr>),
       addToFormController = Some (\<lambda>fieldType fieldData key e. [Target e ''value'' key True]),
       postProcess = None \<rparr>"

definition header_handlers :: handlers where
  "header_handlers =
     \<lparr> initElement = (\<lambda>fieldType fieldData key.
         \<lparr> element = None, groupHeaders = [fd_value fieldData] \<rparr>),
       addToFormController = None,
       postProcess = None \<rparr>"

definition new_dialog :: state where
  "new_dialog =
     \<lparr> registeredFormElements = Map.empty,
       internalFormElements =
         Some (internalFormElements_initial class_name (\<lambda>c. plain_handlers (class_name c))),
       formElements = None,
       formController = None,
       form = None,
       formContainer = [],
       model = None,
       callback = None,
       contextObj = JNull,
       formReadyFunction = None,
       setupFormRendererFunction = None,
       finalizeFunction = None,
       labelColumnWidth = 100,
       ownedQxObjects = Map.empty,
       widgets = Map.empty,
       nextId = 0,
       calls = [] \<rparr>"

definition no_validation :: validation where
  "no_validation =
     \<lparr> v_required = JUndefined, v_validator = JUndefined, v_errorMessage = JUndefined,
       v_proxy = JUndefined, v_method = JUndefined, v_invalidMessage = JUndefined \<rparr>"

definition no_field :: fieldData where
  "no_field =
     \<lparr> fd_type = JUndefined, fd_label = JUndefined, fd_value = JUndefined, fd_validation = None,
       fd_width = JUndefined, fd_placeholder = JUndefined, fd_toolTipText = JUndefined,
       fd_enabled = JUndefined, fd_properties = None, fd_userdata = None, fd_events = None \<rparr>"

definition field_of_type :: "string \<Rightarrow> fieldData" where
  "field_of_type t = no_field\<lparr> fd_type := JStr t \<rparr>"

text \<open>
  An environment: \<open>qx.util.Validate\<close> has four factories here, the function
  \<open>checkEmail\<close>, which throws when called without a value, and the string
  \<open>classname\<close>; \<open>RegExp\<close> rejects the text of one left parenthesis; \<open>rpc.send\<close>
  evaluates to a function; the marshaler is the one of the toolkit.
\<close>

definition sample_Validate :: "string \<Rightarrow> member" where
  "sample_Validate name =
     (if name \<in> set [''email'', ''number'', ''string'', ''url''] then Returning (JFunction 11)
      else if name = ''checkEmail'' then Throwing 1
      else if name = ''classname'' then NotCallable
      else Falsy)"

definition sample_env :: environment where
  "sample_env =
     \<lparr> Validate_member = sample_Validate,
       RegExp_valid = (\<lambda>src. src \<noteq> ''(''),
       eval_js = (\<lambda>code. if code = ''proxy = rpc.send;'' then Some (JFunction 7) else None),
       createModel = Json_createModel,
       module_objectid = False,
       qx_debug = False \<rparr>"

text \<open>
  The first dialog of an application in which every form element class
  registers under the key it is listed at, the spinner under \<open>spiinner\<close>.
\<close>

definition listed_name :: "internal_class \<Rightarrow> string" where
  "listed_name c = (if c = Spinner then ''spiinner'' else class_name c)"

definition listed_dialog :: state where
  "listed_dialog =
     new_dialog\<lparr> internalFormElements :=
                   Some (internalFormElements_initial listed_name
                           (\<lambda>c. plain_handlers (class_name c))) \<rparr>"

text \<open>A dialog whose constructor has run, with handlers for two field types.\<close>

definition ready_dialog :: state where
  "ready_dialog =
     new_dialog\<lparr> registeredFormElements :=
                   [''textfield'' \<mapsto> plain_handlers ''TextField'',
                    ''groupheader'' \<mapsto> header_handlers],
                 internalFormElements := None,
                 formElements := Some Map.empty \<rparr>"

text \<open>A text field with a validation member, and a validator object at rest.\<close>

definition validated :: "validation \<Rightarrow> fieldData" where
  "validated v = (field_of_type ''TextField'')\<lparr> fd_validation := Some v \<rparr>"

definition idle_validator :: async_state where
  "idle_validator = \<lparr> asyncInProgress = False, validity = None, proxyCalls = [] \<rparr>"

text \<open>A map with a header and a text field, and a text field of another map.\<close>

definition sample_formData :: formData where
  "sample_formData =
     [(''account'', (field_of_type ''GroupHeader'')\<lparr> fd_value := JStr ''Account'' \<rparr>),
      (''username'', (field_of_type ''TextField'')\<lparr> fd_label := JStr ''User Name'',
                                                  fd_value := JStr ''joe'' \<rparr>)]"

definition email_field :: fieldData where
  "email_field = (field_of_type ''TextField'')\<lparr> fd_label := JStr ''E-mail'' \<rparr>"

section \<open>Properties\<close>

subsection \<open>The sample values\<close>

lemma ready_dialog_fields:
  "formElements ready_dialog = Some Map.empty"
  "registeredFormElements ready_dialog =
     [''textfield'' \<mapsto> plain_handlers ''TextField'', ''groupheader'' \<mapsto> header_handlers]"
  "nextId ready_dialog = 0"
  "model ready_dialog = None"
  "form ready_dialog = None"
  "formController ready_dialog = None"
  by (simp_all add: ready_dialog_def new_dialog_def)

lemmas lower_defs = toLowerCase_def lower_char_def upper_chars_def lower_chars_def

lemma sample_types:
  "toLowerCase ''TextField'' = ''textfield''"
  "toLowerCase ''GroupHeader'' = ''groupheader''"
  "toLowerCase ''Nope'' = ''nope''"
  "toLowerCase ''nope'' = ''nope''"
  "toLowerCase ''SPINNER'' = ''spinner''"
  "toLowerCase ''Constructor'' = ''constructor''"
  by (simp_all add: lower_defs)

lemma toLowerCase_samples:
  "toLowerCase ''Spinner'' = ''spinner''"
  "toLowerCase ''spinner'' = ''spinner''"
  "toLowerCase ''TextArea'' = ''textarea''"
  "toLowerCase ''textarea'' = ''textarea''"
  "toLowerCase ''spiinner'' = ''spiinner''"
  by (simp_all add: lower_defs)

text \<open>Letters beyond \<open>Z\<close>: \<open>0xC9\<close> is E with an acute accent, \<open>0xD7\<close> the multiplication sign.\<close>

lemma toLowerCase_latin:
  "toLowerCase [CHR 0xC9, CHR ''T'', CHR 0xC9] = [CHR 0xE9, CHR ''t'', CHR 0xE9]"
  "toLowerCase [CHR 0xD7, CHR 0xDF, CHR 0xFF] = [CHR 0xD7, CHR 0xDF, CHR 0xFF]"
  by (simp_all add: lower_defs)

text \<open>The marshaler on two keys.\<close>

lemma property_name_samples:
  "property_name ''first-name'' = ''firstname''"
  "property_name ''a.b c'' = ''abc''"
  "property_name ''username'' = ''username''"
  by (simp_all add: property_name_def white_space_def)

subsection \<open>Registration of field types\<close>

lemma has_property_samples:
  "has_property table ''constructor''"
  "has_property table ''__proto__''"
  "has_property table ''spinner'' \<longleftrightarrow> ''spinner'' \<in> dom table"
  "has_property table ''spiinner'' \<longleftrightarrow> ''spiinner'' \<in> dom table"
  "has_property table ''nope'' \<longleftrightarrow> ''nope'' \<in> dom table"
  by (simp_all add: has_property_def inherited_names_def)

lemma has_property_dom: "name \<in> dom table \<Longrightarrow> has_property table name"
  by (simp add: has_property_def)

lemma register_internal_other_fields:
  "internalFormElements (register_internal table s) = internalFormElements s"
  "formElements (register_internal table s) = formElements s"
  by (induction table arbitrary: s) (auto simp: register_def registerFormElementHandlers_def)

lemma register_registry:
  "registeredFormElements (register c s) =
     (registeredFormElements s)(toLowerCase (registeredAs c) \<mapsto> registration c)"
  by (simp add: register_def registerFormElementHandlers_def)

lemma register_internal_append:
  "register_internal (xs @ ys) s = register_internal ys (register_internal xs s)"
  by (induction xs arbitrary: s) auto

text \<open>Handlers stay when every class that writes their name is listed under it.\<close>

lemma register_internal_keeps:
  assumes "registeredFormElements s ft = Some h"
    and "\<forall>(k, c) \<in> set table. toLowerCase (registeredAs c) = ft \<longrightarrow> k = ft"
  shows "registeredFormElements (register_internal table s) ft = Some h"
  using assms
proof (induction table arbitrary: s)
  case Nil
  then show ?case by simp
next
  case (Cons entry rest)
  obtain k c where entry: "entry = (k, c)" by (cases entry)
  show ?case
  proof (cases "has_property (registeredFormElements s) k")
    case True
    with Cons entry show ?thesis by simp
  next
    case False
    with Cons.prems(1) have "k \<noteq> ft" by (auto simp: has_property_def)
    with Cons.prems(2) entry have "toLowerCase (registeredAs c) \<noteq> ft" by auto
    with Cons.prems(1) have "registeredFormElements (register c s) ft = Some h"
      by (simp add: register_registry)
    with Cons entry False show ?thesis by simp
  qed
qed

text \<open>A name no class of the table writes is not written.\<close>

lemma register_internal_unwritten:
  assumes "\<forall>(k, c) \<in> set table. toLowerCase (registeredAs c) \<noteq> name"
  shows "registeredFormElements (register_internal table s) name = registeredFormElements s name"
  using assms
proof (induction table arbitrary: s)
  case Nil
  show ?case by simp
next
  case (Cons entry rest)
  obtain k c where entry: "entry = (k, c)" by (cases entry)
  from Cons.prems entry have c: "toLowerCase (registeredAs c) \<noteq> name"
    and rest: "\<forall>(k, c) \<in> set rest. toLowerCase (registeredAs c) \<noteq> name"
    by auto
  let ?s1 = "if has_property (registeredFormElements s) k then s else register c s"
  have "registeredFormElements ?s1 name = registeredFormElements s name"
    using c by (simp add: register_registry)
  with Cons.IH [OF rest, of ?s1] entry show ?case by simp
qed

lemma register_internal_only_registry:
  "register_internal table s =
     s\<lparr> registeredFormElements := registeredFormElements (register_internal table s) \<rparr>"
proof (induction table arbitrary: s)
  case Nil
  show ?case by simp
next
  case (Cons entry rest)
  obtain k c where entry: "entry = (k, c)" by (cases entry)
  show ?case
  proof (cases "has_property (registeredFormElements s) k")
    case True
    with entry have step: "register_internal (entry # rest) s = register_internal rest s"
      by simp
    show ?thesis unfolding step by (rule Cons.IH)
  next
    case False
    with entry have step:
      "register_internal (entry # rest) s = register_internal rest (register c s)"
      by simp
    have frame: "(register c s)\<lparr> registeredFormElements := r \<rparr> =
        s\<lparr> registeredFormElements := r \<rparr>" for r
      by (simp add: register_def registerFormElementHandlers_def)
    show ?thesis
      unfolding step using Cons.IH [of "register c s"] by (simp only: frame)
  qed
qed

lemma init_normal:
  "init s =
     s\<lparr> registeredFormElements := registeredFormElements (init s),
        internalFormElements := None,
        formElements := Some Map.empty \<rparr>"
proof (cases "internalFormElements s")
  case None
  then show ?thesis by (simp add: init_def)
next
  case (Some table)
  let ?s1 = "s\<lparr> formElements := Some Map.empty \<rparr>"
  have "init s = (register_internal table ?s1)\<lparr> internalFormElements := None \<rparr>"
    using Some by (simp add: init_def)
  also have "register_internal table ?s1 =
      ?s1\<lparr> registeredFormElements := registeredFormElements (register_internal table ?s1) \<rparr>"
    by (rule register_internal_only_registry)
  finally have eq: "init s =
      s\<lparr> registeredFormElements := registeredFormElements (register_internal table ?s1),
         internalFormElements := None, formElements := Some Map.empty \<rparr>"
    by simp
  then have "registeredFormElements (init s) =
      registeredFormElements (register_internal table ?s1)"
    by simp
  with eq show ?thesis by simp
qed

lemma init_registry:
  "internalFormElements s = Some table \<Longrightarrow>
   registeredFormElements (init s) =
     registeredFormElements (register_internal table (s\<lparr> formElements := Some Map.empty \<rparr>))"
  by (simp add: init_def)

subsection \<open>The steps of \<open>_applyFormData\<close> in one update each\<close>

lemma dispose_old_normal:
  "dispose_old s =
     s\<lparr> calls :=
          calls s
            @ (case formController s of
                 None \<Rightarrow> []
               | Some c \<Rightarrow>
                   (case model s of
                      None \<Rightarrow> []
                    | Some m \<Rightarrow>
                        [RemoveAllBindings (ModelObj (mid m)), Dispose (ControllerObj (cid c))]))
            @ (case form s of
                 None \<Rightarrow> []
               | Some f \<Rightarrow>
                   [RemoveAllBindings (ValidationManagerOf (fid f)), Dispose (FormObj (fid f))]),
        formContainer := [] \<rparr>"
  by (simp add: dispose_old_def Let_def log_calls_def)

lemma new_form_normal:
  "new_form env fd s =
     s\<lparr> model := Some \<lparr> mid = nextId s, props = createModel env (modelData fd) \<rparr>,
        form := Some \<lparr> fid = Suc (nextId s), items = [], owned = [] \<rparr>,
        formController :=
          Some \<lparr> cid = Suc (Suc (nextId s)), cmodel = Some (nextId s), targets = [] \<rparr>,
        nextId := Suc (Suc (Suc (nextId s))),
        ownedQxObjects :=
          (if module_objectid env then (ownedQxObjects s)(''form'' \<mapsto> Suc (nextId s))
           else ownedQxObjects s),
        calls :=
          calls s
            @ (case model s of
                 None \<Rightarrow> []
               | Some m \<Rightarrow> [RemoveAllBindings (ModelObj (mid m)), Dispose (ModelObj (mid m))])
            @ [BindValidToOkButton (ValidationManagerOf (Suc (nextId s))),
               BindValidToOkButton (ValidationManagerOf (Suc (nextId s)))]
            @ formReady_calls (formReadyFunction s) (contextObj s) (Suc (nextId s)) \<rparr>"
  by (simp add: new_form_def Let_def log_calls_def onFormReady_def)

text \<open>The element when the lines on validation have run.\<close>

lemma add_element_validation_throws:
  assumes "validation_block env d = (req, Inl err, logged)"
  shows "add_element env h fieldType d key w s =
     (Threw err,
      s\<lparr> widgets :=
           (widgets s)(nextId s \<mapsto>
             w\<lparr> wcalls := wcalls w @ [SetUserData ''key'' (JStr key)] @ req \<rparr>),
         nextId := Suc (nextId s),
         formController :=
           map_option
             (\<lambda>c. c\<lparr> targets := targets c @ controller_targets h fieldType d key (nextId s) \<rparr>)
             (formController s),
         calls := calls s @ logged \<rparr>)"
  using assms by (simp add: add_element_def Let_def widget_do_def log_calls_def)

lemma add_element_userdata_throws:
  assumes "validation_block env d = (req, Inr validator, logged)"
    and "userdata_calls d = Inl err"
  shows "add_element env h fieldType d key w s =
     (Threw err,
      s\<lparr> widgets :=
           (widgets s)(nextId s \<mapsto>
             w\<lparr> wcalls :=
                  wcalls w @ [SetUserData ''key'' (JStr key)] @ req
                    @ property_calls d
                    @ postProcess_calls h fieldType d key (nextId s) \<rparr>),
         nextId := Suc (nextId s),
         formController :=
           map_option
             (\<lambda>c. c\<lparr> targets := targets c @ controller_targets h fieldType d key (nextId s) \<rparr>)
             (formController s),
         calls := calls s @ logged \<rparr>)"
  using assms by (simp add: add_element_def Let_def widget_do_def log_calls_def)

lemma add_element_Done:
  assumes "validation_block env d = (req, Inr validator, logged)"
    and "userdata_calls d = Inr userdata"
  shows "add_element env h fieldType d key w s =
     (Done,
      s\<lparr> widgets :=
           (widgets s)(nextId s \<mapsto>
             w\<lparr> wcalls :=
                  wcalls w @ [SetUserData ''key'' (JStr key)] @ req
                    @ property_calls d
                    @ postProcess_calls h fieldType d key (nextId s)
                    @ userdata
                    @ fst (event_block env key d)
                    @ (if module_objectid env then [SetQxObjectId key] else []) \<rparr>),
         nextId := Suc (nextId s),
         formController :=
           map_option
             (\<lambda>c. c\<lparr> targets := targets c @ controller_targets h fieldType d key (nextId s) \<rparr>)
             (formController s),
         calls := calls s @ logged @ snd (event_block env key d),
         form :=
           map_option
             (\<lambda>f. f\<lparr> items := items f @ [FormItem (nextId s) (label_or_empty d) validator],
                      owned := owned f @ (if module_objectid env then [nextId s] else []) \<rparr>)
             (form s),
         formElements := map_option (\<lambda>els. els(key \<mapsto> nextId s)) (formElements s) \<rparr>)"
  using assms
  by (cases "form s"; cases "event_block env key d")
     (simp_all add: add_element_def Let_def widget_do_def log_calls_def)

lemma render_form_Done:
  assumes "form s = Some f" and "list_all item_validates (items f)"
  shows "render_form s =
     (Done,
      s\<lparr> formContainer :=
           formContainer s
             @ [case setupFormRendererFunction s of
                  None \<Rightarrow> DefaultRenderer (fid f) (labelColumnWidth s)
                | Some g \<Rightarrow> CustomRenderer g (fid f)],
         calls :=
           calls s @ [ValidateForm (fid f)]
             @ call_function (finalizeFunction s) (contextObj s) [ArgForm (fid f), ArgThis] \<rparr>)"
  using assms by (simp add: render_form_def Let_def log_calls_def)

lemma render_form_throws:
  assumes "form s = Some f" and "\<not> list_all item_validates (items f)"
  shows "render_form s =
     (Threw TypeError,
      s\<lparr> formContainer :=
           formContainer s
             @ [case setupFormRendererFunction s of
                  None \<Rightarrow> DefaultRenderer (fid f) (labelColumnWidth s)
                | Some g \<Rightarrow> CustomRenderer g (fid f)],
         calls := calls s @ [ValidateForm (fid f)] \<rparr>)"
  using assms by (simp add: render_form_def Let_def log_calls_def)

lemma build_field_no_string:
  "\<not> isString (fd_type d) \<Longrightarrow> build_field env s (key, d) = (Threw MissingTypeMember, s)"
  by (cases "fd_type d") (simp_all add: build_field_def)

lemma build_field_unknown:
  "fd_type d = JStr t \<Longrightarrow> \<not> has_property (registeredFormElements s) (toLowerCase t) \<Longrightarrow>
   build_field env s (key, d) = (Threw (UnknownFieldType (toLowerCase t)), s)"
  by (simp add: build_field_def)

lemma build_field_inherited:
  "fd_type d = JStr t \<Longrightarrow> has_property (registeredFormElements s) (toLowerCase t) \<Longrightarrow>
   registeredFormElements s (toLowerCase t) = None \<Longrightarrow>
   build_field env s (key, d) = (Threw TypeError, s)"
  by (simp add: build_field_def)

lemma build_field_known:
  assumes "fd_type d = JStr t"
    and "registeredFormElements s (toLowerCase t) = Some h"
    and "form s = Some f"
    and "formElements s = Some els"
  shows "build_field env s (key, d) =
     (case element (initElement h (toLowerCase t) d key) of
        None \<Rightarrow>
          (Done,
           s\<lparr> form := Some (f\<lparr> items := items f
                   @ map GroupHeader (groupHeaders (initElement h (toLowerCase t) d key)) \<rparr>) \<rparr>)
      | Some w \<Rightarrow>
          add_element env h (toLowerCase t) d key w
            (s\<lparr> form := Some (f\<lparr> items := items f
                  @ map GroupHeader (groupHeaders (initElement h (toLowerCase t) d key)) \<rparr>) \<rparr>))"
  using assms by (simp add: build_field_def Let_def has_property_def domI split: option.splits)


subsection \<open>What the loop leaves alone\<close>

lemma loop_frame_refl: "loop_frame s s"
proof -
  have "formController s = map_option (\<lambda>c. c\<lparr> targets := targets c @ [] \<rparr>) (formController s)"
    by (cases "formController s") simp_all
  moreover have "form s =
      map_option (\<lambda>f. f\<lparr> items := items f @ [], owned := owned f @ [] \<rparr>) (form s)"
    by (cases "form s") simp_all
  ultimately show ?thesis
    unfolding loop_frame_def by blast
qed

lemma loop_frame_trans:
  assumes "loop_frame s1 s2" and "loop_frame s2 s3"
  shows "loop_frame s1 s3"
proof -
  from assms obtain more1 more2 where
    "calls s2 = calls s1 @ more1" "calls s3 = calls s2 @ more2"
    unfolding loop_frame_def by blast
  then have c: "\<exists>more. calls s3 = calls s1 @ more" by simp
  from assms obtain tg1 tg2 where
    t1: "formController s2 = map_option (\<lambda>c. c\<lparr> targets := targets c @ tg1 \<rparr>) (formController s1)"
    and t2: "formController s3 = map_option (\<lambda>c. c\<lparr> targets := targets c @ tg2 \<rparr>) (formController s2)"
    unfolding loop_frame_def by blast
  have "formController s3 =
      map_option (\<lambda>c. c\<lparr> targets := targets c @ (tg1 @ tg2) \<rparr>) (formController s1)"
    unfolding t2 t1 by (cases "formController s1") simp_all
  then have t: "\<exists>tg. formController s3 =
      map_option (\<lambda>c. c\<lparr> targets := targets c @ tg \<rparr>) (formController s1)" ..
  from assms obtain m1 o1 m2 o2 where
    f1: "form s2 = map_option (\<lambda>f. f\<lparr> items := items f @ m1, owned := owned f @ o1 \<rparr>) (form s1)"
    and f2: "form s3 = map_option (\<lambda>f. f\<lparr> items := items f @ m2, owned := owned f @ o2 \<rparr>) (form s2)"
    unfolding loop_frame_def by blast
  have "form s3 =
      map_option (\<lambda>f. f\<lparr> items := items f @ (m1 @ m2), owned := owned f @ (o1 @ o2) \<rparr>) (form s1)"
    unfolding f2 f1 by (cases "form s1") simp_all
  then have f: "\<exists>more ow. form s3 =
      map_option (\<lambda>f. f\<lparr> items := items f @ more, owned := owned f @ ow \<rparr>) (form s1)"
    by blast
  from assms have rest:
    "registeredFormElements s3 = registeredFormElements s1"
    "internalFormElements s3 = internalFormElements s1"
    "formContainer s3 = formContainer s1"
    "model s3 = model s1"
    "callback s3 = callback s1"
    "contextObj s3 = contextObj s1"
    "formReadyFunction s3 = formReadyFunction s1"
    "setupFormRendererFunction s3 = setupFormRendererFunction s1"
    "finalizeFunction s3 = finalizeFunction s1"
    "labelColumnWidth s3 = labelColumnWidth s1"
    "ownedQxObjects s3 = ownedQxObjects s1"
    "nextId s1 \<le> nextId s3"
    "formElements s3 = None \<longleftrightarrow> formElements s1 = None"
    unfolding loop_frame_def by simp_all
  with c t f show ?thesis
    unfolding loop_frame_def by blast
qed

lemma headers_frame:
  assumes "form s = Some f"
  shows "loop_frame s (s\<lparr> form := Some (f\<lparr> items := items f @ hs \<rparr>) \<rparr>)"
proof -
  have "formController s = map_option (\<lambda>c. c\<lparr> targets := targets c @ [] \<rparr>) (formController s)"
    by (cases "formController s") simp_all
  moreover have "Some (f\<lparr> items := items f @ hs \<rparr>) =
      map_option (\<lambda>f. f\<lparr> items := items f @ hs, owned := owned f @ [] \<rparr>) (form s)"
    using assms by simp
  ultimately show ?thesis
    unfolding loop_frame_def by (simp del: append_Nil2) blast
qed

lemma loop_frame_fields:
  assumes "registeredFormElements s' = registeredFormElements s"
    and "internalFormElements s' = internalFormElements s"
    and "formContainer s' = formContainer s"
    and "model s' = model s"
    and "callback s' = callback s"
    and "contextObj s' = contextObj s"
    and "formReadyFunction s' = formReadyFunction s"
    and "setupFormRendererFunction s' = setupFormRendererFunction s"
    and "finalizeFunction s' = finalizeFunction s"
    and "labelColumnWidth s' = labelColumnWidth s"
    and "ownedQxObjects s' = ownedQxObjects s"
    and "nextId s \<le> nextId s'"
    and "calls s' = calls s @ cs"
    and "formController s' = map_option (\<lambda>c. c\<lparr> targets := targets c @ tg \<rparr>) (formController s)"
    and "form s' = map_option (\<lambda>f. f\<lparr> items := items f @ its, owned := owned f @ ow \<rparr>) (form s)"
    and "formElements s' = None \<longleftrightarrow> formElements s = None"
  shows "loop_frame s s'"
  unfolding loop_frame_def using assms by blast

lemma add_element_frame:
  assumes "add_element env h fieldType d key w s = (out, s')"
  shows "loop_frame s s'"
proof -
  obtain req resolved logged where vb: "validation_block env d = (req, resolved, logged)"
    by (cases "validation_block env d")
  show ?thesis
  proof (cases resolved)
    case (Inl err)
    from add_element_validation_throws [OF vb [unfolded Inl], of h fieldType key w s] assms
    have s': "s' = s\<lparr> widgets :=
           (widgets s)(nextId s \<mapsto>
             w\<lparr> wcalls := wcalls w @ [SetUserData ''key'' (JStr key)] @ req \<rparr>),
         nextId := Suc (nextId s),
         formController :=
           map_option
             (\<lambda>c. c\<lparr> targets := targets c @ controller_targets h fieldType d key (nextId s) \<rparr>)
             (formController s),
         calls := calls s @ logged \<rparr>"
      by simp
    show ?thesis
      by (rule loop_frame_fields [where cs = logged
            and tg = "controller_targets h fieldType d key (nextId s)" and its = "[]" and ow = "[]"])
         (simp_all add: s' option.map_ident)
  next
    case (Inr validator)
    note vb = vb [unfolded Inr]
    show ?thesis
    proof (cases "userdata_calls d")
      case (Inl err)
      from add_element_userdata_throws [OF vb Inl, of h fieldType key w s] assms
      have s': "s' = s\<lparr> widgets :=
           (widgets s)(nextId s \<mapsto>
             w\<lparr> wcalls :=
                  wcalls w @ [SetUserData ''key'' (JStr key)] @ req
                    @ property_calls d
                    @ postProcess_calls h fieldType d key (nextId s) \<rparr>),
         nextId := Suc (nextId s),
         formController :=
           map_option
             (\<lambda>c. c\<lparr> targets := targets c @ controller_targets h fieldType d key (nextId s) \<rparr>)
             (formController s),
         calls := calls s @ logged \<rparr>"
        by simp
      show ?thesis
        by (rule loop_frame_fields [where cs = logged
              and tg = "controller_targets h fieldType d key (nextId s)" and its = "[]" and ow = "[]"])
           (simp_all add: s' option.map_ident)
    next
      case (Inr userdata)
      from add_element_Done [OF vb Inr, where h = h and fieldType = fieldType and key = key and w = w and s = s] assms
      have s': "s' = s\<lparr> widgets :=
           (widgets s)(nextId s \<mapsto>
             w\<lparr> wcalls :=
                  wcalls w @ [SetUserData ''key'' (JStr key)] @ req
                    @ property_calls d
                    @ postProcess_calls h fieldType d key (nextId s)
                    @ userdata
                    @ fst (event_block env key d)
                    @ (if module_objectid env then [SetQxObjectId key] else []) \<rparr>),
         nextId := Suc (nextId s),
         formController :=
           map_option
             (\<lambda>c. c\<lparr> targets := targets c @ controller_targets h fieldType d key (nextId s) \<rparr>)
             (formController s),
         calls := calls s @ logged @ snd (event_block env key d),
         form :=
           map_option
             (\<lambda>f. f\<lparr> items := items f @ [FormItem (nextId s) (label_or_empty d) validator],
                      owned := owned f @ (if module_objectid env then [nextId s] else []) \<rparr>)
             (form s),
         formElements := map_option (\<lambda>els. els(key \<mapsto> nextId s)) (formElements s) \<rparr>"
        by simp
      show ?thesis
        by (rule loop_frame_fields [where cs = "logged @ snd (event_block env key d)"
              and tg = "controller_targets h fieldType d key (nextId s)"
              and its = "[FormItem (nextId s) (label_or_empty d) validator]"
              and ow = "if module_objectid env then [nextId s] else []"])
           (simp_all add: s')
    qed
  qed
qed

lemma build_field_frame:
  assumes "build_field env s entry = (out, s')"
  shows "loop_frame s s'"
proof -
  obtain key d where entry: "entry = (key, d)" by (cases entry)
  show ?thesis
  proof (cases "fd_type d")
    case (JStr t)
    show ?thesis
    proof (cases "registeredFormElements s (toLowerCase t)")
      case None
      with JStr assms entry have "s' = s"
        by (cases "has_property (registeredFormElements s) (toLowerCase t)")
           (simp_all add: build_field_unknown build_field_inherited)
      then show ?thesis by (simp add: loop_frame_refl)
    next
      case (Some h)
      show ?thesis
      proof (cases "form s")
        case None
        with JStr Some assms entry show ?thesis
          by (auto simp: build_field_def Let_def loop_frame_refl split: if_splits)
      next
        case f: (Some f)
        show ?thesis
        proof (cases "formElements s")
          case None
          with JStr Some f assms entry show ?thesis
            by (auto simp: build_field_def Let_def loop_frame_refl split: if_splits)
        next
          case els: (Some els)
          let ?r = "initElement h (toLowerCase t) d key"
          let ?s1 = "s\<lparr> form := Some (f\<lparr> items := items f @ map GroupHeader (groupHeaders ?r) \<rparr>) \<rparr>"
          have one: "loop_frame s ?s1" using f by (rule headers_frame)
          show ?thesis
          proof (cases "element ?r")
            case None
            with build_field_known [OF JStr Some f els, of env key] assms entry
            have "s' = ?s1" by simp
            with one show ?thesis by simp
          next
            case (Some w)
            with build_field_known [OF JStr \<open>registeredFormElements s (toLowerCase t) = Some h\<close> f els, of env key]
              assms entry
            have "add_element env h (toLowerCase t) d key w ?s1 = (out, s')" by simp
            then have "loop_frame ?s1 s'" by (rule add_element_frame)
            with one show ?thesis by (rule loop_frame_trans)
          qed
        qed
      qed
    qed
  qed (use assms entry in \<open>auto simp: build_field_no_string loop_frame_refl\<close>)
qed

lemma build_fields_frame:
  "build_fields env fd s = (out, s') \<Longrightarrow> loop_frame s s'"
proof (induction fd arbitrary: s)
  case Nil
  then show ?case by (simp add: loop_frame_refl)
next
  case (Cons entry rest)
  obtain o1 s1 where step: "build_field env s entry = (o1, s1)"
    by (cases "build_field env s entry")
  then have one: "loop_frame s s1" by (rule build_field_frame)
  show ?case
  proof (cases o1)
    case Done
    with Cons.prems step have "build_fields env rest s1 = (out, s')" by simp
    then have "loop_frame s1 s'" by (rule Cons.IH)
    with one show ?thesis by (rule loop_frame_trans)
  next
    case (Threw e)
    with Cons.prems step have "s' = s1" by simp
    with one show ?thesis by simp
  qed
qed

subsection \<open>handleOk\<close>

text \<open>
  Claim C3. \<open>_handleOk\<close> hides the dialog and fires \<open>ok\<close>; when a callback is set it
  is called with the stored context and the native-object form of the current
  model as its only argument; the callback property is reset afterwards. When
  no callback is set, hiding and firing are all that happens to the dialog.
\<close>

theorem handleOk_calls_callback:
  "handleOk s =
     s\<lparr> calls :=
          calls s @ [Hide, FireEvent ''ok'']
            @ (case callback s of
                 None \<Rightarrow> []
               | Some cb \<Rightarrow> [Call cb (contextObj s) [ArgNative (toNativeObject (model s))]]),
        callback := None \<rparr>
   \<and> (callback s = None \<longrightarrow> handleOk s = s\<lparr> calls := calls s @ [Hide, FireEvent ''ok''] \<rparr>)"
  by (cases "callback s") (simp_all add: handleOk_def Let_def log_calls_def call_function_def)

text \<open>
  \<open>_handleOk\<close> on a dialog without a callback, and on one with callback \<open>5\<close>.
\<close>

theorem handleOk_calls_callback_witness:
  "callback new_dialog = None
   \<and> handleOk new_dialog = new_dialog\<lparr> calls := [Hide, FireEvent ''ok''] \<rparr>
   \<and> handleOk
        (new_dialog\<lparr> callback := Some 5, contextObj := JNum 1,
                     model := Some \<lparr> mid = 0, props = [(''username'', JStr ''joe'')] \<rparr> \<rparr>) =
       new_dialog\<lparr> contextObj := JNum 1,
                    model := Some \<lparr> mid = 0, props = [(''username'', JStr ''joe'')] \<rparr>,
                    calls := [Hide, FireEvent ''ok'',
                              Call 5 (JNum 1) [ArgNative (Some [(''username'', JStr ''joe'')])]] \<rparr>"
  using handleOk_calls_callback [of new_dialog]
    handleOk_calls_callback [of "new_dialog\<lparr> callback := Some 5, contextObj := JNum 1,
       model := Some \<lparr> mid = 0, props = [(''username'', JStr ''joe'')] \<rparr> \<rparr>"]
  by (simp add: new_dialog_def toNativeObject_def)

subsection \<open>applyFormData as a whole\<close>

lemma applyFormData_Some:
  "applyFormData env (Some fd) s =
     (case build_fields env fd
             (new_form env fd (dispose_old (if formElements s = None then init s else s))) of
        (Done, s2) \<Rightarrow> render_form s2
      | (Threw e, s2) \<Rightarrow> (Threw e, s2))"
  by (simp add: applyFormData_def Let_def)

lemma applyFormData_None:
  "applyFormData env None s =
     (Done, dispose_old (if formElements s = None then init s else s))"
  by (simp add: applyFormData_def Let_def)

lemma start_fields:
  fixes s :: state and env :: environment and fd :: formData
  defines "s0 \<equiv> (if formElements s = None then init s else s)"
  defines "start \<equiv> new_form env fd (dispose_old s0)"
  shows "model start = Some \<lparr> mid = nextId s, props = createModel env (modelData fd) \<rparr>"
    and "form start = Some \<lparr> fid = Suc (nextId s), items = [], owned = [] \<rparr>"
    and "formController start =
           Some \<lparr> cid = Suc (Suc (nextId s)), cmodel = Some (nextId s), targets = [] \<rparr>"
    and "nextId start = Suc (Suc (Suc (nextId s)))"
    and "formElements start \<noteq> None"
    and "registeredFormElements start = registeredFormElements s0"
    and "formContainer start = []"
    and "formElements start = formElements s0"
proof -
  have n: "nextId s0 = nextId s"
    unfolding s0_def by (subst init_normal) simp
  have e: "formElements s0 \<noteq> None"
    unfolding s0_def by (subst init_normal) simp
  from n show "model start = Some \<lparr> mid = nextId s, props = createModel env (modelData fd) \<rparr>"
    and "form start = Some \<lparr> fid = Suc (nextId s), items = [], owned = [] \<rparr>"
    and "formController start =
           Some \<lparr> cid = Suc (Suc (nextId s)), cmodel = Some (nextId s), targets = [] \<rparr>"
    and "nextId start = Suc (Suc (Suc (nextId s)))"
    unfolding start_def by (simp_all add: new_form_normal dispose_old_normal)
  from e show "formElements start \<noteq> None"
    unfolding start_def by (simp add: new_form_normal dispose_old_normal)
  show "registeredFormElements start = registeredFormElements s0"
    and "formContainer start = []"
    and "formElements start = formElements s0"
    unfolding start_def by (simp_all add: new_form_normal dispose_old_normal)
qed

lemma render_form_fields:
  assumes "form s = Some f"
  shows "model (snd (render_form s)) = model s"
    and "formController (snd (render_form s)) = formController s"
    and "form (snd (render_form s)) = form s"
    and "formElements (snd (render_form s)) = formElements s"
    and "nextId (snd (render_form s)) = nextId s"
    and "registeredFormElements (snd (render_form s)) = registeredFormElements s"
    and "widgets (snd (render_form s)) = widgets s"
    and "formContainer (snd (render_form s)) =
           formContainer s
             @ [case setupFormRendererFunction s of
                  None \<Rightarrow> DefaultRenderer (fid f) (labelColumnWidth s)
                | Some g \<Rightarrow> CustomRenderer g (fid f)]"
  by (cases "list_all item_validates (items f)";
      simp add: render_form_Done [OF assms] render_form_throws [OF assms])+

text \<open>What an application of a map leaves behind, whether it returned or threw.\<close>

lemma applyFormData_Some_leaves:
  assumes "applyFormData env (Some fd) s = (out, s')"
  shows "model s' = Some \<lparr> mid = nextId s, props = createModel env (modelData fd) \<rparr>"
    and "\<exists>tg. formController s' =
           Some \<lparr> cid = Suc (Suc (nextId s)), cmodel = Some (nextId s), targets = tg \<rparr>"
    and "\<exists>its ow. form s' = Some \<lparr> fid = Suc (nextId s), items = its, owned = ow \<rparr>"
    and "formElements s' \<noteq> None"
    and "Suc (Suc (Suc (nextId s))) \<le> nextId s'"
proof -
  let ?start = "new_form env fd (dispose_old (if formElements s = None then init s else s))"
  obtain o2 s2 where loop: "build_fields env fd ?start = (o2, s2)"
    by (cases "build_fields env fd ?start")
  then have frame: "loop_frame ?start s2" by (rule build_fields_frame)
  have m2: "model s2 = Some \<lparr> mid = nextId s, props = createModel env (modelData fd) \<rparr>"
    using frame start_fields(1) [where s = s and env = env and fd = fd] unfolding loop_frame_def by simp
  have c2: "\<exists>tg. formController s2 =
      Some \<lparr> cid = Suc (Suc (nextId s)), cmodel = Some (nextId s), targets = tg \<rparr>"
    using frame start_fields(3) [where s = s and env = env and fd = fd] unfolding loop_frame_def by auto
  have f2: "\<exists>its ow. form s2 = Some \<lparr> fid = Suc (nextId s), items = its, owned = ow \<rparr>"
    using frame start_fields(2) [where s = s and env = env and fd = fd] unfolding loop_frame_def by auto
  have e2: "formElements s2 \<noteq> None"
    using frame start_fields(5) [where s = s and env = env and fd = fd] unfolding loop_frame_def by simp
  have n2: "Suc (Suc (Suc (nextId s))) \<le> nextId s2"
    using frame start_fields(4) [where s = s and env = env and fd = fd] unfolding loop_frame_def by simp
  from f2 obtain f where f: "form s2 = Some f" by blast
  have s': "s' = (case o2 of Done \<Rightarrow> snd (render_form s2) | Threw e \<Rightarrow> s2)"
    using assms loop by (cases o2) (auto simp: applyFormData_Some)
  show "model s' = Some \<lparr> mid = nextId s, props = createModel env (modelData fd) \<rparr>"
    using m2 s' render_form_fields(1) [OF f] by (cases o2) simp_all
  show "\<exists>tg. formController s' =
      Some \<lparr> cid = Suc (Suc (nextId s)), cmodel = Some (nextId s), targets = tg \<rparr>"
    using c2 s' render_form_fields(2) [OF f] by (cases o2) simp_all
  show "\<exists>its ow. form s' = Some \<lparr> fid = Suc (nextId s), items = its, owned = ow \<rparr>"
    using f2 s' render_form_fields(3) [OF f] by (cases o2) simp_all
  show "formElements s' \<noteq> None"
    using e2 s' render_form_fields(4) [OF f] by (cases o2) simp_all
  show "Suc (Suc (Suc (nextId s))) \<le> nextId s'"
    using n2 s' render_form_fields(5) [OF f] by (cases o2) simp_all
qed

text \<open>
  Claim C9. After a map has been applied, applying null disposes of the form
  controller and of the form (after removing the bindings of the model and of
  the validation manager) and empties the form container. Nothing else
  changes: the \<open>model\<close> property still holds the model, which is not disposed.
\<close>

theorem applyFormData_null_keeps_model:
  assumes "applyFormData env (Some fd) s0 = (out, s)"
  shows "\<exists>c f m. formController s = Some c \<and> form s = Some f \<and> model s = Some m
     \<and> applyFormData env' None s =
         (Done,
          s\<lparr> calls :=
               calls s @ [RemoveAllBindings (ModelObj (mid m)), Dispose (ControllerObj (cid c)),
                          RemoveAllBindings (ValidationManagerOf (fid f)), Dispose (FormObj (fid f))],
             formContainer := [] \<rparr>)
     \<and> model (snd (applyFormData env' None s)) = Some m
     \<and> formContainer (snd (applyFormData env' None s)) = []"
proof -
  from applyFormData_Some_leaves [OF assms] obtain c f m els where
    "formController s = Some c" "form s = Some f" "model s = Some m" "formElements s = Some els"
    by blast
  then show ?thesis
    by (simp add: applyFormData_None dispose_old_normal)
qed

text \<open>
  Applying null after a map of one field: the model stays.
\<close>

theorem applyFormData_null_keeps_model_witness:
  "model (snd (applyFormData sample_env None
       (snd (applyFormData sample_env (Some [(''username'', field_of_type ''TextField'')]) ready_dialog)))) =
     model (snd (applyFormData sample_env (Some [(''username'', field_of_type ''TextField'')]) ready_dialog))
   \<and> model (snd (applyFormData sample_env (Some [(''username'', field_of_type ''TextField'')]) ready_dialog))
       \<noteq> None
   \<and> formContainer (snd (applyFormData sample_env None
       (snd (applyFormData sample_env (Some [(''username'', field_of_type ''TextField'')]) ready_dialog)))) = []"
  using applyFormData_null_keeps_model [OF prod.collapse [symmetric], of sample_env
      "[(''username'', field_of_type ''TextField'')]" ready_dialog sample_env]
  by auto



text \<open>The facts that evaluate \<open>_applyFormData\<close> on the sample values.\<close>

lemma add_element_eval:
  "add_element env h fieldType d key w s =
     (case validation_block env d of
        (req, resolved, logged) \<Rightarrow>
          (case resolved of
             Inl err \<Rightarrow>
               (Threw err,
                s\<lparr> widgets :=
                     (widgets s)(nextId s \<mapsto>
                       w\<lparr> wcalls := wcalls w @ [SetUserData ''key'' (JStr key)] @ req \<rparr>),
                   nextId := Suc (nextId s),
                   formController :=
                     map_option
                       (\<lambda>c. c\<lparr> targets := targets c @ controller_targets h fieldType d key (nextId s) \<rparr>)
                       (formController s),
                   calls := calls s @ logged \<rparr>)
           | Inr validator \<Rightarrow>
               (case userdata_calls d of
                  Inl err \<Rightarrow>
                    (Threw err,
                     s\<lparr> widgets :=
                          (widgets s)(nextId s \<mapsto>
                            w\<lparr> wcalls :=
                                 wcalls w @ [SetUserData ''key'' (JStr key)] @ req
                                   @ property_calls d
                                   @ postProcess_calls h fieldType d key (nextId s) \<rparr>),
                        nextId := Suc (nextId s),
                        formController :=
                          map_option
                            (\<lambda>c. c\<lparr> targets := targets c @ controller_targets h fieldType d key (nextId s) \<rparr>)
                            (formController s),
                        calls := calls s @ logged \<rparr>)
                | Inr userdata \<Rightarrow>
                    (Done,
                     s\<lparr> widgets :=
                          (widgets s)(nextId s \<mapsto>
                            w\<lparr> wcalls :=
                                 wcalls w @ [SetUserData ''key'' (JStr key)] @ req
                                   @ property_calls d
                                   @ postProcess_calls h fieldType d key (nextId s)
                                   @ userdata
                                   @ fst (event_block env key d)
                                   @ (if module_objectid env then [SetQxObjectId key] else []) \<rparr>),
                        nextId := Suc (nextId s),
                        formController :=
                          map_option
                            (\<lambda>c. c\<lparr> targets := targets c @ controller_targets h fieldType d key (nextId s) \<rparr>)
                            (formController s),
                        calls := calls s @ logged @ snd (event_block env key d),
                        form :=
                          map_option
                            (\<lambda>f. f\<lparr> items := items f @ [FormItem (nextId s) (label_or_empty d) validator],
                                     owned := owned f @ (if module_objectid env then [nextId s] else []) \<rparr>)
                            (form s),
                        formElements := map_option (\<lambda>els. els(key \<mapsto> nextId s)) (formElements s) \<rparr>))))"
proof -
  obtain req resolved logged where vb: "validation_block env d = (req, resolved, logged)"
    by (cases "validation_block env d")
  show ?thesis
  proof (cases resolved)
    case (Inl err)
    with vb add_element_validation_throws [OF vb [unfolded Inl], of h fieldType key w s]
    show ?thesis by simp
  next
    case (Inr validator)
    note vb' = vb [unfolded Inr]
    show ?thesis
    proof (cases "userdata_calls d")
      case (Inl err)
      with vb' add_element_userdata_throws [OF vb' Inl, of h fieldType key w s]
      show ?thesis by simp
    next
      case ud: (Inr userdata)
      with vb' add_element_Done [OF vb' ud, where h = h and fieldType = fieldType and key = key
          and w = w and s = s]
      show ?thesis by simp
    qed
  qed
qed

lemmas eval_defs =
  applyFormData_Some build_field_def Let_def add_element_eval new_form_normal dispose_old_normal
  render_form_def log_calls_def call_function_def formReady_calls_def has_property_def
  inherited_names_def
  ready_dialog_def new_dialog_def plain_handlers_def header_handlers_def sample_formData_def
  email_field_def field_of_type_def no_field_def validated_def no_validation_def
  sample_env_def sample_Validate_def validation_block_def
  sync_validator_def async_validator_def instanceof_AsyncValidator_def substr_def
  property_calls_def postProcess_calls_def controller_targets_def userdata_calls_def
  event_block_def label_or_empty_def modelData_def Json_createModel_def property_name_def
  white_space_def toLowerCase_def lower_char_def upper_chars_def lower_chars_def
  eval_nat_numeral

text \<open>The sample map applied to the sample dialog.\<close>

lemma sample_form_built:
  "fst (applyFormData sample_env (Some sample_formData) ready_dialog) = Done"
  "nextId (snd (applyFormData sample_env (Some sample_formData) ready_dialog)) = 4"
  "formElements (snd (applyFormData sample_env (Some sample_formData) ready_dialog)) =
     Some [''username'' \<mapsto> 3]"
  "form (snd (applyFormData sample_env (Some sample_formData) ready_dialog)) =
     Some \<lparr> fid = 1,
            items = [GroupHeader (JStr ''Account''),
                     FormItem 3 (JStr ''User Name'') NoValidator],
            owned = [] \<rparr>"
  "model (snd (applyFormData sample_env (Some sample_formData) ready_dialog)) =
     Some \<lparr> mid = 0, props = [(''account'', JStr ''Account''), (''username'', JStr ''joe'')] \<rparr>"
  "formContainer (snd (applyFormData sample_env (Some sample_formData) ready_dialog)) =
     [DefaultRenderer 1 100]"
  "registeredFormElements (snd (applyFormData sample_env (Some sample_formData) ready_dialog)) =
     registeredFormElements ready_dialog"
  "setupFormRendererFunction (snd (applyFormData sample_env (Some sample_formData) ready_dialog)) =
     None"
  "labelColumnWidth (snd (applyFormData sample_env (Some sample_formData) ready_dialog)) = 100"
  by (simp_all add: eval_defs)

subsection \<open>The model\<close>













subsection \<open>The loop\<close>

lemma build_fields_append:
  "build_fields env (xs @ ys) s =
     (case build_fields env xs s of
        (Done, s1) \<Rightarrow> build_fields env ys s1
      | (Threw e, s1) \<Rightarrow> (Threw e, s1))"
proof (induction xs arbitrary: s)
  case Nil
  show ?case by simp
next
  case (Cons entry rest)
  obtain o1 s1 where step: "build_field env s entry = (o1, s1)"
    by (cases "build_field env s entry")
  show ?case
    using step Cons.IH [of s1] by (cases o1) simp_all
qed


text \<open>An entry with a registered type and an element.\<close>

lemma build_field_element:
  assumes t: "fd_type d = JStr t"
    and h: "registeredFormElements s (toLowerCase t) = Some h"
    and f: "form s = Some f"
    and els: "formElements s = Some els"
    and w: "element (initElement h (toLowerCase t) d key) = Some w"
  shows "\<exists>out sa.
      build_field env s (key, d) = (out, sa)
    \<and> map_option (\<lambda>x. take (Suc (length (wcalls w))) (wcalls x)) (widgets sa (nextId s)) =
        Some (wcalls w @ [SetUserData ''key'' (JStr key)])
    \<and> (lines_return env d \<longrightarrow>
          out = Done
        \<and> (\<exists>validator. fst (snd (validation_block env d)) = Inr validator
             \<and> form sa =
                 Some (f\<lparr> items := items f
                            @ map GroupHeader (groupHeaders (initElement h (toLowerCase t) d key))
                            @ [FormItem (nextId s)
                                 (if truthy (fd_label d) then fd_label d else JStr []) validator],
                          owned := owned f @ (if module_objectid env then [nextId s] else []) \<rparr>))
        \<and> formElements sa = Some (els(key \<mapsto> nextId s)))
    \<and> (\<not> lines_return env d \<longrightarrow>
          (\<exists>err. out = Threw err
             \<and> (fst (snd (validation_block env d)) = Inl err \<or> userdata_calls d = Inl err))
        \<and> form sa =
            Some (f\<lparr> items := items f
                       @ map GroupHeader (groupHeaders (initElement h (toLowerCase t) d key)) \<rparr>)
        \<and> formElements sa = Some els)"
proof -
  let ?hs = "map GroupHeader (groupHeaders (initElement h (toLowerCase t) d key))"
  let ?s1 = "s\<lparr> form := Some (f\<lparr> items := items f @ ?hs \<rparr>) \<rparr>"
  have step: "build_field env s (key, d) = add_element env h (toLowerCase t) d key w ?s1"
    using build_field_known [OF t h f els, of env key] w by simp
  obtain req resolved logged where vb: "validation_block env d = (req, resolved, logged)"
    by (cases "validation_block env d")
  show ?thesis
  proof (cases resolved)
    case (Inl err)
    then have no: "\<not> lines_return env d"
      using vb by (simp add: lines_return_def)
    show ?thesis
      unfolding step add_element_validation_throws [OF vb [unfolded Inl]]
      using no vb Inl els by simp
  next
    case (Inr validator)
    note vb' = vb [unfolded Inr]
    show ?thesis
    proof (cases "userdata_calls d")
      case (Inl err)
      then have no: "\<not> lines_return env d"
        by (simp add: lines_return_def)
      show ?thesis
        unfolding step add_element_userdata_throws [OF vb' Inl]
        using no Inl els by simp
    next
      case ud: (Inr userdata)
      then have yes: "lines_return env d"
        using vb' by (simp add: lines_return_def)
      show ?thesis
        unfolding step add_element_Done [OF vb' ud]
        using yes vb' els by (simp add: label_or_empty_def)
    qed
  qed
qed

lemma build_field_typed:
  assumes "fd_type d = JStr t"
    and "toLowerCase t \<in> dom (registeredFormElements s)"
    and "form s \<noteq> None"
    and "formElements s \<noteq> None"
    and "lines_return env d"
  shows "fst (build_field env s (key, d)) = Done"
proof -
  from assms obtain h f els where
    known: "registeredFormElements s (toLowerCase t) = Some h" "form s = Some f"
      "formElements s = Some els"
    by auto
  show ?thesis
  proof (cases "element (initElement h (toLowerCase t) d key)")
    case None
    with build_field_known [OF assms(1) known, of env key] show ?thesis by simp
  next
    case (Some w)
    from build_field_element [OF assms(1) known Some, of env] assms(5)
    show ?thesis by auto
  qed
qed

text \<open>
  The loop returns when every entry has a registered string type and no entry's
  lines throw.
\<close>

lemma build_fields_typed:
  assumes "\<forall>(key, d) \<in> set fd. \<exists>t. fd_type d = JStr t
             \<and> toLowerCase t \<in> dom (registeredFormElements s)"
    and "\<forall>(key, d) \<in> set fd. lines_return env d"
    and "form s \<noteq> None"
    and "formElements s \<noteq> None"
  shows "fst (build_fields env fd s) = Done"
  using assms
proof (induction fd arbitrary: s)
  case Nil
  show ?case by simp
next
  case (Cons entry rest)
  obtain key d where entry: "entry = (key, d)" by (cases entry)
  obtain o1 s1 where step: "build_field env s entry = (o1, s1)"
    by (cases "build_field env s entry")
  from Cons.prems(1) entry obtain t where
    t: "fd_type d = JStr t" "toLowerCase t \<in> dom (registeredFormElements s)"
    by auto
  from Cons.prems(2) entry have "lines_return env d" by simp
  from build_field_typed [OF t Cons.prems(3,4) this, of key] step entry
  have o1: "o1 = Done" by simp
  from step have frame: "loop_frame s s1" by (rule build_field_frame)
  then have reg: "registeredFormElements s1 = registeredFormElements s"
    and f1: "form s1 \<noteq> None" and e1: "formElements s1 \<noteq> None"
    using Cons.prems(3,4) unfolding loop_frame_def by auto
  from Cons.prems(1) reg have
    "\<forall>(key, d) \<in> set rest. \<exists>t. fd_type d = JStr t
        \<and> toLowerCase t \<in> dom (registeredFormElements s1)"
    by simp
  moreover from Cons.prems(2) have "\<forall>(key, d) \<in> set rest. lines_return env d" by simp
  ultimately have "fst (build_fields env rest s1) = Done"
    using f1 e1 by (rule Cons.IH)
  with step o1 show ?case by simp
qed

text \<open>
  The entry at which the loop stops for want of a type: the entries before it
  were built, and the loop ends with the error of that entry, in the state it
  was reached in.
\<close>

lemma build_fields_first_failure:
  assumes before: "build_fields env before s = (Done, sb)"
  shows "\<not> isString (fd_type d) \<Longrightarrow>
           build_fields env (before @ (key, d) # rest) s = (Threw MissingTypeMember, sb)"
    and "fd_type d = JStr t \<Longrightarrow> \<not> has_property (registeredFormElements s) (toLowerCase t) \<Longrightarrow>
           build_fields env (before @ (key, d) # rest) s =
             (Threw (UnknownFieldType (toLowerCase t)), sb)"
    and "fd_type d = JStr t \<Longrightarrow> has_property (registeredFormElements s) (toLowerCase t) \<Longrightarrow>
         registeredFormElements s (toLowerCase t) = None \<Longrightarrow>
           build_fields env (before @ (key, d) # rest) s = (Threw TypeError, sb)"
proof -
  from before have "loop_frame s sb" by (rule build_fields_frame)
  then have reg: "registeredFormElements sb = registeredFormElements s"
    unfolding loop_frame_def by simp
  show "build_fields env (before @ (key, d) # rest) s = (Threw MissingTypeMember, sb)"
    if "\<not> isString (fd_type d)"
    using that before by (simp add: build_fields_append build_field_no_string)
  show "build_fields env (before @ (key, d) # rest) s =
      (Threw (UnknownFieldType (toLowerCase t)), sb)"
    if "fd_type d = JStr t" "\<not> has_property (registeredFormElements s) (toLowerCase t)"
    using that before reg by (simp add: build_fields_append build_field_unknown)
  show "build_fields env (before @ (key, d) # rest) s = (Threw TypeError, sb)"
    if "fd_type d = JStr t" "has_property (registeredFormElements s) (toLowerCase t)"
      "registeredFormElements s (toLowerCase t) = None"
    using that before reg by (simp add: build_fields_append build_field_inherited)
qed

text \<open>
  Claim C5, as the code has it. The entries are taken in order, so the error is
  that of the entry at which the loop stops. When the entries before an entry
  have been built, an entry whose \<open>type\<close> is not a string makes \<open>_applyFormData\<close>
  throw "Missing type member {String}", and an entry whose down-cased type \<open>in\<close>
  does not find in the table of registered types makes it throw "Field type
  ... is unknown". The state is then the one reached after the entries before:
  no element was made for the entry, and none of the later entries was looked
  at.
\<close>

theorem applyFormData_throws_at_first_bad_type:
  fixes s :: state and env :: environment
  defines "s0 \<equiv> (if formElements s = None then init s else s)"
  assumes before: "build_fields env before
             (new_form env (before @ (key, d) # rest) (dispose_old s0)) = (Done, sb)"
  shows "(\<not> isString (fd_type d) \<longrightarrow>
            applyFormData env (Some (before @ (key, d) # rest)) s = (Threw MissingTypeMember, sb)
            \<and> message MissingTypeMember = Some ''Missing type member {String}'')
       \<and> (\<forall>t. fd_type d = JStr t
              \<and> \<not> has_property (registeredFormElements s0) (toLowerCase t) \<longrightarrow>
            applyFormData env (Some (before @ (key, d) # rest)) s =
              (Threw (UnknownFieldType (toLowerCase t)), sb)
            \<and> message (UnknownFieldType (toLowerCase t)) =
                Some (''Field type '' @ toLowerCase t @ '' is unknown''))"
proof -
  let ?fd = "before @ (key, d) # rest"
  let ?start = "new_form env ?fd (dispose_old s0)"
  have reg: "registeredFormElements ?start = registeredFormElements s0"
    unfolding s0_def
    using start_fields(6) [where s = s and env = env and fd = ?fd] by simp
  note fail = build_fields_first_failure(1,2) [OF before, where d = d and key = key
      and rest = rest]
  have apply_eq: "applyFormData env (Some ?fd) s =
      (case build_fields env ?fd ?start of
         (Done, s2) \<Rightarrow> render_form s2
       | (Threw e, s2) \<Rightarrow> (Threw e, s2))"
    unfolding s0_def by (rule applyFormData_Some)
  show ?thesis
    using fail reg by (auto simp: apply_eq)
qed

text \<open>
  A map whose second entry has no type, and one whose second entry has a type
  nobody registered.
\<close>

theorem applyFormData_throws_at_first_bad_type_witness:
  "fst (applyFormData sample_env
          (Some [(''a'', field_of_type ''TextField''), (''b'', no_field)]) ready_dialog) =
     Threw MissingTypeMember
   \<and> fst (applyFormData sample_env
          (Some [(''a'', field_of_type ''TextField''), (''b'', field_of_type ''Nope'')]) ready_dialog) =
     Threw (UnknownFieldType ''nope'')"
proof -
  let ?s0 = "if formElements ready_dialog = None then init ready_dialog else ready_dialog"
  have built: "build_fields sample_env [(''a'', field_of_type ''TextField'')]
      (new_form sample_env ([(''a'', field_of_type ''TextField'')] @ (''b'', d) # []) (dispose_old ?s0)) =
      (Done, snd (build_fields sample_env [(''a'', field_of_type ''TextField'')]
        (new_form sample_env ([(''a'', field_of_type ''TextField'')] @ (''b'', d) # [])
          (dispose_old ?s0))))" for d
  proof -
    have "fst (build_fields sample_env [(''a'', field_of_type ''TextField'')]
      (new_form sample_env ([(''a'', field_of_type ''TextField'')] @ (''b'', d) # [])
        (dispose_old ?s0))) = Done"
      by (rule build_fields_typed)
         (simp_all add: ready_dialog_fields new_form_normal dispose_old_normal field_of_type_def
            sample_types lines_return_def validation_block_def userdata_calls_def no_field_def)
    then show ?thesis by (simp add: prod_eq_iff)
  qed
  from applyFormData_throws_at_first_bad_type [OF built [of no_field]]
    applyFormData_throws_at_first_bad_type [OF built [of "field_of_type ''Nope''"]]
  show ?thesis
    by (simp add: ready_dialog_fields field_of_type_def no_field_def sample_types
        has_property_def inherited_names_def)
qed

text \<open>
  Claim C5 as it is written speaks of every entry. Here the second entry has
  no type, and the error thrown is the one of the first entry, whose type is
  not registered.
\<close>

theorem later_bad_type_is_not_reported:
  "\<not> isString (fd_type no_field)
   \<and> fst (applyFormData sample_env
          (Some [(''a'', field_of_type ''Nope''), (''b'', no_field)]) ready_dialog) =
     Threw (UnknownFieldType ''nope'')
   \<and> message (UnknownFieldType ''nope'') \<noteq> Some ''Missing type member {String}''"
  by (simp add: applyFormData_Some build_field_unknown new_form_normal dispose_old_normal
      ready_dialog_fields field_of_type_def no_field_def sample_types has_property_def
      inherited_names_def)

text \<open>
  A type of the name of a member every object inherits is found by \<open>in\<close>, though
  nobody registered it: the loop goes on to line 501, which ends in a
  \<open>TypeError\<close>.
\<close>

lemma inherited_name_as_type:
  "fst (applyFormData sample_env (Some [(''a'', field_of_type ''Constructor'')]) ready_dialog) =
     Threw TypeError"
  by (simp add: applyFormData_Some build_field_inherited new_form_normal dispose_old_normal
      ready_dialog_fields field_of_type_def no_field_def sample_types has_property_def
      inherited_names_def)


subsection \<open>What the loop builds\<close>




text \<open>
  Two more ways for the lines of an entry to throw: a validator that names a
  member of \<open>qx.util.Validate\<close> which is no function, and \<open>userdata\<close> that is null.
\<close>

lemma lines_that_throw:
  "fst (applyFormData sample_env
          (Some [(''code'', validated (no_validation\<lparr> v_validator := JStr ''classname'' \<rparr>))])
          ready_dialog) = Threw TypeError"
  "fst (applyFormData sample_env
          (Some [(''code'', (field_of_type ''TextField'')\<lparr> fd_userdata := Some ONull \<rparr>)])
          ready_dialog) = Threw TypeError"
  by (simp_all add: eval_defs)

text \<open>
  When the loop has returned, the form is validated: a validator that is
  neither a function nor an asynchronous validator, such as the string line 656
  passes on after "Invalid string validator.", makes \<open>validate()\<close> throw. The
  element is in the form by then.
\<close>

lemma invalid_validator_fails_validation:
  "fst (applyFormData sample_env
          (Some [(''code'', validated (no_validation\<lparr> v_validator := JStr ''abc'' \<rparr>))])
          ready_dialog) = Threw TypeError"
  "map_option items (form (snd (applyFormData sample_env
          (Some [(''code'', validated (no_validation\<lparr> v_validator := JStr ''abc'' \<rparr>))])
          ready_dialog))) = Some [FormItem 3 (JStr []) (Given (JStr ''abc''))]"
  "formContainer (snd (applyFormData sample_env
          (Some [(''code'', validated (no_validation\<lparr> v_validator := JStr ''abc'' \<rparr>))])
          ready_dialog)) = [DefaultRenderer 1 100]"
  by (simp_all add: eval_defs)


subsection \<open>Validators\<close>

lemma substr_middle: "substr name (Suc 0) (int (length name) - 2) = butlast (tl name)"
proof -
  have "nat (int (length name) - 2) = length (tl name) - 1" by simp
  then show ?thesis
    by (simp add: substr_def butlast_conv_take drop_Suc)
qed

lemma async_validator_keeps:
  assumes "\<forall>p f. v_proxy v = JStr p \<and> isString (v_method v) \<longrightarrow>
     eval_js env (''proxy = '' @ strip_semicolon_newline p @ '';'') \<noteq> Some (JFunction f)"
  shows "fst (async_validator env v current) = current"
    and "set (snd (async_validator env v current)) \<subseteq> {LogWarn ''Invalid proxy name''}"
proof -
  show "fst (async_validator env v current) = current"
  proof (cases "v_proxy v")
    case (JStr p)
    show ?thesis
    proof (cases "isString (v_method v)")
      case True
      with assms JStr have
        no: "\<And>f. eval_js env (''proxy = '' @ strip_semicolon_newline p @ '';'') \<noteq> Some (JFunction f)"
        by blast
      show ?thesis
      proof (cases "eval_js env (''proxy = '' @ strip_semicolon_newline p @ '';'')")
        case None
        with JStr True show ?thesis by (simp add: async_validator_def)
      next
        case (Some r)
        with no have "\<forall>f. r \<noteq> JFunction f" by auto
        with JStr True Some show ?thesis
          by (cases r) (auto simp: async_validator_def)
      qed
    next
      case False
      then show ?thesis by (simp add: async_validator_def)
    qed
  qed (simp_all add: async_validator_def)
  show "set (snd (async_validator env v current)) \<subseteq> {LogWarn ''Invalid proxy name''}"
    by (auto simp: async_validator_def Let_def split: js_value.splits option.splits if_splits)
qed

lemma validation_block_sync:
  assumes "fd_validation d = Some v"
  shows "sync_validator env v = Inl err \<Longrightarrow>
           validation_block env d =
             (if truthy (v_required v) then [SetRequired True] else [], Inl err, [])"
    and "sync_validator env v = Inr (validator1, logged1) \<Longrightarrow>
           validation_block env d =
             (if truthy (v_required v) then [SetRequired True] else [],
              Inr (fst (async_validator env v validator1)),
              logged1 @ snd (async_validator env v validator1))"
  using assms
  by (simp_all add: validation_block_def Let_def split: prod.splits)

text \<open>
  Claim C6, as the code has it. Take a field with an element whose
  \<open>validation.validator\<close> is a string, and for which the lines on the
  asynchronous validator do not build one (they replace whatever was resolved
  before). For a non-empty string that names a function of \<open>qx.util.Validate\<close>
  the function is called: what it returns is the validator attached, and when
  it throws, that error is thrown. Otherwise, when \<open>qx.util.Validate\<close> has no
  truthy member of the name, a string starting with "/" gives the
  regular-expression validator made of the text between its first and last
  characters and of \<open>validation.errorMessage\<close>, or the \<open>SyntaxError\<close> of \<open>RegExp\<close> when
  that text is no regular expression; and a string not starting with "/" has
  the error "Invalid string validator." reported. The empty string counts as
  no validator: nothing is attached and nothing is reported.
\<close>

theorem string_validator_resolution:
  assumes v: "fd_validation d = Some v"
    and name: "v_validator v = JStr name"
    and no_async: "\<forall>p f. v_proxy v = JStr p \<and> isString (v_method v) \<longrightarrow>
       eval_js env (''proxy = '' @ strip_semicolon_newline p @ '';'') \<noteq> Some (JFunction f)"
  shows "(\<forall>made. name \<noteq> [] \<and> Validate_member env name = Returning made \<longrightarrow>
            fst (snd (validation_block env d)) = Inr (Given made)
            \<and> LogError ''Invalid string validator.'' \<notin> set (snd (snd (validation_block env d))))
       \<and> (\<forall>n. name \<noteq> [] \<and> Validate_member env name = Throwing n \<longrightarrow>
            fst (snd (validation_block env d)) = Inl (Raised n))
       \<and> (name \<noteq> [] \<and> Validate_member env name = Falsy \<and> take 1 name = ''/''
            \<and> RegExp_valid env (butlast (tl name)) \<longrightarrow>
            fst (snd (validation_block env d)) =
              Inr (RegExpValidator (butlast (tl name)) (v_errorMessage v))
            \<and> LogError ''Invalid string validator.'' \<notin> set (snd (snd (validation_block env d))))
       \<and> (name \<noteq> [] \<and> Validate_member env name = Falsy \<and> take 1 name = ''/''
            \<and> \<not> RegExp_valid env (butlast (tl name)) \<longrightarrow>
            fst (snd (validation_block env d)) = Inl SyntaxError)
       \<and> (name \<noteq> [] \<and> Validate_member env name = Falsy \<and> take 1 name \<noteq> ''/'' \<longrightarrow>
            LogError ''Invalid string validator.'' \<in> set (snd (snd (validation_block env d))))
       \<and> (name = [] \<longrightarrow>
            fst (snd (validation_block env d)) = Inr NoValidator
            \<and> LogError ''Invalid string validator.'' \<notin> set (snd (snd (validation_block env d))))"
proof -
  note keep = async_validator_keeps [OF no_async]
  have nolog: "LogError ''Invalid string validator.'' \<notin> set (snd (async_validator env v current))"
    for current
    using keep(2) [of current] by auto
  have thrown: "fst (snd (validation_block env d)) = Inl err" if "sync_validator env v = Inl err"
    for err
    using validation_block_sync(1) [OF v that] by simp
  have resolved: "fst (snd (validation_block env d)) = Inr validator1
      \<and> (LogError ''Invalid string validator.'' \<in> set (snd (snd (validation_block env d)))
           \<longleftrightarrow> LogError ''Invalid string validator.'' \<in> set logged1)"
    if "sync_validator env v = Inr (validator1, logged1)" for validator1 logged1
    using validation_block_sync(2) [OF v that] keep(1) [of validator1] nolog [of validator1]
    by simp
  have a: "sync_validator env v = Inr (Given made, [])"
    if "name \<noteq> []" "Validate_member env name = Returning made" for made
    using that name by (simp add: sync_validator_def)
  have b: "sync_validator env v = Inl (Raised n)"
    if "name \<noteq> []" "Validate_member env name = Throwing n" for n
    using that name by (simp add: sync_validator_def)
  have c: "sync_validator env v = Inr (RegExpValidator (butlast (tl name)) (v_errorMessage v), [])"
    if "name \<noteq> []" "Validate_member env name = Falsy" "take 1 name = ''/''"
      "RegExp_valid env (butlast (tl name))"
    using that name by (simp add: sync_validator_def substr_middle)
  have d: "sync_validator env v = Inl SyntaxError"
    if "name \<noteq> []" "Validate_member env name = Falsy" "take 1 name = ''/''"
      "\<not> RegExp_valid env (butlast (tl name))"
    using that name by (simp add: sync_validator_def substr_middle)
  have e: "sync_validator env v = Inr (Given (JStr name), [LogError ''Invalid string validator.''])"
    if "name \<noteq> []" "Validate_member env name = Falsy" "take 1 name \<noteq> ''/''"
    using that name by (simp add: sync_validator_def)
  have f: "sync_validator env v = Inr (NoValidator, [])" if "name = []"
    using that name by (simp add: sync_validator_def)
  show ?thesis
    using resolved [OF a] thrown [OF b] resolved [OF c] thrown [OF d] resolved [OF e]
      resolved [OF f]
    by simp
qed

text \<open>
  The three kinds of string on sample fields.
\<close>

theorem string_validator_resolution_witness:
  "fst (snd (validation_block sample_env (validated (no_validation\<lparr> v_validator := JStr ''email'' \<rparr>)))) =
     Inr (Given (JFunction 11))
   \<and> fst (snd (validation_block sample_env
        (validated (no_validation\<lparr> v_validator := JStr ''/[0-9]+/'',
                                    v_errorMessage := JStr ''digits only'' \<rparr>)))) =
     Inr (RegExpValidator ''[0-9]+'' (JStr ''digits only''))
   \<and> LogError ''Invalid string validator.''
       \<in> set (snd (snd (validation_block sample_env
             (validated (no_validation\<lparr> v_validator := JStr ''abc'' \<rparr>)))))"
proof -
  let ?e = "no_validation\<lparr> v_validator := JStr ''email'' \<rparr>"
  let ?r = "no_validation\<lparr> v_validator := JStr ''/[0-9]+/'', v_errorMessage := JStr ''digits only'' \<rparr>"
  let ?a = "no_validation\<lparr> v_validator := JStr ''abc'' \<rparr>"
  from string_validator_resolution [of "validated ?e" ?e "''email''" sample_env]
    string_validator_resolution [of "validated ?r" ?r "''/[0-9]+/''" sample_env]
    string_validator_resolution [of "validated ?a" ?a "''abc''" sample_env]
  show ?thesis
    by (simp add: validated_def no_validation_def sample_env_def sample_Validate_def)
qed

text \<open>
  Claim C6 as it is written covers every string. For the empty string no error
  is reported. A field that also names a proxy that evaluates to a function
  gets the asynchronous validator, not the result of the function its validator
  names. A string starting with "/" whose text \<open>RegExp\<close> rejects, and a function
  of \<open>qx.util.Validate\<close> that throws, end in an error thrown: no validator is
  attached.
\<close>

theorem string_validator_not_always_as_claimed:
  "validation_block sample_env (validated (no_validation\<lparr> v_validator := JStr [] \<rparr>)) =
     ([], Inr NoValidator, [])
   \<and> Validate_member sample_env ''email'' = Returning (JFunction 11)
   \<and> validation_block sample_env
        (validated (no_validation\<lparr> v_validator := JStr ''email'', v_proxy := JStr ''rpc.send'',
                                    v_method := JStr ''checkName'' \<rparr>)) =
     ([], Inr (AsyncProxyValidator 7 (JStr ''checkName'') JUndefined), [])
   \<and> validation_block sample_env (validated (no_validation\<lparr> v_validator := JStr ''/(/'' \<rparr>)) =
     ([], Inl SyntaxError, [])
   \<and> Validate_member sample_env ''checkEmail'' = Throwing 1
   \<and> validation_block sample_env (validated (no_validation\<lparr> v_validator := JStr ''checkEmail'' \<rparr>)) =
     ([], Inl (Raised 1), [])"
  by (simp add: validation_block_def sync_validator_def async_validator_def validated_def
      no_validation_def sample_env_def sample_Validate_def substr_def Let_def)

text \<open>
  In the last case of the claim the code reports the error and goes on with
  the string itself as the validator: it is what \<open>this._form.add\<close> receives. And a
  truthy member of \<open>qx.util.Validate\<close> that is no function is called all the same,
  which is a \<open>TypeError\<close>.
\<close>

lemma invalid_string_validator_is_passed_on:
  "validation_block sample_env (validated (no_validation\<lparr> v_validator := JStr ''abc'' \<rparr>)) =
     ([], Inr (Given (JStr ''abc'')), [LogError ''Invalid string validator.''])"
  "validation_block sample_env (validated (no_validation\<lparr> v_validator := JStr ''classname'' \<rparr>)) =
     ([], Inl TypeError, [])"
  by (simp_all add: validation_block_def sync_validator_def async_validator_def validated_def
      no_validation_def sample_env_def sample_Validate_def Let_def)

subsection \<open>The asynchronous validator\<close>

lemma async_run_calls:
  "length (proxyCalls (async_run proxy m msg evs st))
     \<le> length (proxyCalls st) + (if asyncInProgress st then 0 else 1)
         + length (filter (\<lambda>ev. case ev of Deliver valid tr \<Rightarrow> True | Validate x \<Rightarrow> False) evs)"
proof (induction evs arbitrary: st)
  case Nil
  show ?case by (simp add: async_run_def)
next
  case (Cons ev evs)
  have run: "async_run proxy m msg (ev # evs) st =
      async_run proxy m msg evs (async_step proxy m msg st ev)"
    by (simp add: async_run_def)
  show ?case
  proof (cases ev)
    case (Validate x)
    with Cons.IH [of "validationFunc proxy m st x"] show ?thesis
      unfolding run by (auto simp: validationFunc_def split: if_splits)
  next
    case (Deliver valid tr)
    with Cons.IH [of "proxy_callback msg tr valid st"] show ?thesis
      unfolding run by (auto simp: proxy_callback_def split: if_splits option.splits)
  qed
qed

text \<open>
  Claim C7. For a field whose \<open>validation.proxy\<close> and \<open>validation.method\<close>
  are strings and whose proxy expression evaluates to a function, the lines on
  the asynchronous validator build the asynchronous validator from that
  function, whatever the validator was before; it is the validator attached
  whenever these lines are reached, that is, unless the lines on the
  synchronous validator before them throw. Its validation
  function does nothing while the flag \<open>__asyncInProgress\<close> is set; when the
  flag is clear it sets it and calls the proxy once. The flag is cleared by no
  step but a call of the callback, which sets the validity. So, whatever the
  order of validations and callbacks, the proxy was called at most once more
  often than the callback ran (counting a call that was in progress at the
  start).
\<close>

theorem async_validator_one_call_at_a_time:
  assumes "fd_validation d = Some v"
    and "v_proxy v = JStr p"
    and "isString (v_method v)"
    and "eval_js env (''proxy = '' @ strip_semicolon_newline p @ '';'') = Some (JFunction f)"
  shows "(\<forall>current. async_validator env v current =
            (AsyncProxyValidator f (v_method v) (v_invalidMessage v), []))
       \<and> ((\<forall>err. sync_validator env v \<noteq> Inl err) \<longrightarrow>
            fst (snd (validation_block env d)) =
              Inr (AsyncProxyValidator f (v_method v) (v_invalidMessage v)))
       \<and> (\<forall>err. sync_validator env v = Inl err \<longrightarrow>
            fst (snd (validation_block env d)) = Inl err)
       \<and> (\<forall>st x. asyncInProgress st \<longrightarrow> validationFunc f (v_method v) st x = st)
       \<and> (\<forall>st x. \<not> asyncInProgress st \<longrightarrow>
             validationFunc f (v_method v) st x =
               st\<lparr> asyncInProgress := True,
                    proxyCalls := proxyCalls st @ [(f, v_method v, [x])] \<rparr>)
       \<and> (\<forall>st ev. asyncInProgress st
               \<and> \<not> asyncInProgress (async_step f (v_method v) (v_invalidMessage v) st ev) \<longrightarrow>
             (\<exists>valid tr msg. ev = Deliver valid tr
                \<and> validity (async_step f (v_method v) (v_invalidMessage v) st ev) = Some (valid, msg)))
       \<and> (\<forall>evs st.
             length (proxyCalls (async_run f (v_method v) (v_invalidMessage v) evs st))
               \<le> length (proxyCalls st) + (if asyncInProgress st then 0 else 1)
                   + length (filter (\<lambda>ev. case ev of Deliver valid tr \<Rightarrow> True | Validate x \<Rightarrow> False) evs))"
proof -
  have built: "async_validator env v current =
      (AsyncProxyValidator f (v_method v) (v_invalidMessage v), [])" for current
    using assms(2-4) by (simp add: async_validator_def)
  have attached: "fst (snd (validation_block env d)) =
      Inr (AsyncProxyValidator f (v_method v) (v_invalidMessage v))"
    if "\<forall>err. sync_validator env v \<noteq> Inl err"
  proof -
    from that obtain validator1 logged1 where "sync_validator env v = Inr (validator1, logged1)"
      by (cases "sync_validator env v") auto
    from validation_block_sync(2) [OF assms(1) this] built show ?thesis by simp
  qed
  have thrown: "fst (snd (validation_block env d)) = Inl err"
    if "sync_validator env v = Inl err" for err
    using validation_block_sync(1) [OF assms(1) that] by simp
  have cleared: "\<exists>valid tr msg. ev = Deliver valid tr
      \<and> validity (async_step f (v_method v) (v_invalidMessage v) st ev) = Some (valid, msg)"
    if "asyncInProgress st"
      and "\<not> asyncInProgress (async_step f (v_method v) (v_invalidMessage v) st ev)" for st ev
    using that
    by (cases ev) (auto simp: validationFunc_def proxy_callback_def split: if_splits option.splits)
  show ?thesis
    using built attached thrown cleared async_run_calls [of f "v_method v" "v_invalidMessage v"]
    by (auto simp: validationFunc_def)
qed

text \<open>
  A validator built from the proxy \<open>rpc.send\<close>: the second validation comes
  while the first call is in progress and does not reach the proxy; after the
  callback the third one does.
\<close>

theorem async_validator_one_call_at_a_time_witness:
  "fst (snd (validation_block sample_env
       (validated (no_validation\<lparr> v_proxy := JStr ''rpc.send'', v_method := JStr ''checkName'',
                                   v_invalidMessage := JStr ''taken'' \<rparr>)))) =
     Inr (AsyncProxyValidator 7 (JStr ''checkName'') (JStr ''taken''))
   \<and> async_run 7 (JStr ''checkName'') (JStr ''taken'')
        [Validate (JStr ''a''), Validate (JStr ''ab''), Deliver (JBool True) None,
         Validate (JStr ''abc'')] idle_validator =
     \<lparr> asyncInProgress = True, validity = Some (JBool True, JStr ''taken''),
       proxyCalls = [(7, JStr ''checkName'', [JStr ''a'']), (7, JStr ''checkName'', [JStr ''abc''])] \<rparr>"
proof -
  let ?v = "no_validation\<lparr> v_proxy := JStr ''rpc.send'', v_method := JStr ''checkName'',
                            v_invalidMessage := JStr ''taken'' \<rparr>"
  have "fd_validation (validated ?v) = Some ?v" by (simp add: validated_def)
  moreover have "v_proxy ?v = JStr ''rpc.send''" by simp
  moreover have "isString (v_method ?v)" by simp
  moreover have "eval_js sample_env (''proxy = '' @ strip_semicolon_newline ''rpc.send'' @ '';'') =
      Some (JFunction 7)"
    by (simp add: sample_env_def)
  moreover have "\<forall>err. sync_validator sample_env ?v \<noteq> Inl err"
    by (simp add: sync_validator_def no_validation_def)
  ultimately have "fst (snd (validation_block sample_env (validated ?v))) =
      Inr (AsyncProxyValidator 7 (v_method ?v) (v_invalidMessage ?v))"
    using async_validator_one_call_at_a_time [of "validated ?v" ?v "''rpc.send''" sample_env 7]
    by blast
  then show ?thesis
    by (simp add: async_run_def validationFunc_def proxy_callback_def idle_validator_def)
qed


subsection \<open>The spinner\<close>

text \<open>
  The table of internal classes, around the entry of the spinner.
\<close>

lemma internal_table_split:
  "internalFormElements_initial absentName registrations =
     map (\<lambda>(fieldType, c). (fieldType, formElement_class absentName registrations c))
       [(''checkbox'', CheckBox), (''combobox'', ComboBox), (''datefield'', DateField),
        (''groupheader'', GroupHeaderClass), (''label'', Label), (''list'', ListClass),
        (''passwordfield'', PasswordField), (''radiogroup'', RadioGroup),
        (''selectbox'', SelectBox)]
     @ (''spiinner'', formElement_class absentName registrations Spinner)
     # map (\<lambda>(fieldType, c). (fieldType, formElement_class absentName registrations c))
         [(''textarea'', TextArea), (''textfield'', TextField)]"
  by (simp add: internalFormElements_initial_def internalFormElements_table_def)

lemma spinner_class:
  "registeredAs (formElement_class absentName registrations Spinner) = absentName Spinner"
  "registration (formElement_class absentName registrations c) = registrations c"
  by (simp_all add: formElement_class_def)

text \<open>
  When every other class registers under the key it is listed at, and nothing is
  written under \<open>spiinner\<close>, the loop of \<open>_init\<close> registers the spinner, under the
  name its \<open>register()\<close> passes, whatever was registered under that name.
\<close>

lemma register_internal_spinner:
  assumes others: "\<forall>(k, c) \<in> set internalFormElements_table. c \<noteq> Spinner \<longrightarrow>
      toLowerCase (registeredAs (formElement_class absentName registrations c)) = k"
    and misspelt: "''spiinner'' \<notin> dom (registeredFormElements s)"
  shows "registeredFormElements
           (register_internal (internalFormElements_initial absentName registrations) s)
           (toLowerCase (absentName Spinner)) = Some (registrations Spinner)"
proof -
  define pre where "pre =
     map (\<lambda>(fieldType, c). (fieldType, formElement_class absentName registrations c))
       [(''checkbox'', CheckBox), (''combobox'', ComboBox), (''datefield'', DateField),
        (''groupheader'', GroupHeaderClass), (''label'', Label), (''list'', ListClass),
        (''passwordfield'', PasswordField), (''radiogroup'', RadioGroup),
        (''selectbox'', SelectBox)]"
  define post where "post =
     map (\<lambda>(fieldType, c). (fieldType, formElement_class absentName registrations c))
       [(''textarea'', TextArea), (''textfield'', TextField)]"
  define spinner where "spinner = formElement_class absentName registrations Spinner"
  define ft where "ft = toLowerCase (absentName Spinner)"
  define s1 where "s1 = register_internal pre s"
  note names = others [unfolded internalFormElements_table_def, simplified]
  have table: "internalFormElements_initial absentName registrations =
      pre @ (''spiinner'', spinner) # post"
    unfolding pre_def post_def spinner_def by (rule internal_table_split)
  have "\<forall>(k, c) \<in> set pre. toLowerCase (registeredAs c) \<noteq> ''spiinner''"
    unfolding pre_def using names by simp
  then have "registeredFormElements s1 ''spiinner'' = registeredFormElements s ''spiinner''"
    unfolding s1_def by (rule register_internal_unwritten)
  with misspelt have "\<not> has_property (registeredFormElements s1) ''spiinner''"
    by (auto simp: has_property_def inherited_names_def)
  then have step: "register_internal ((''spiinner'', spinner) # post) s1 =
      register_internal post (register spinner s1)"
    by simp
  have now: "registeredFormElements (register spinner s1) ft = Some (registrations Spinner)"
    unfolding spinner_def ft_def by (simp add: register_registry spinner_class)
  have "\<forall>(k, c) \<in> set post. toLowerCase (registeredAs c) = ft \<longrightarrow> k = ft"
    unfolding post_def using names by auto
  with now have "registeredFormElements (register_internal post (register spinner s1)) ft =
      Some (registrations Spinner)"
    by (rule register_internal_keeps)
  moreover have "register_internal (internalFormElements_initial absentName registrations) s =
      register_internal post (register spinner s1)"
    unfolding table register_internal_append s1_def [symmetric] by (rule step)
  ultimately show ?thesis
    unfolding ft_def by simp
qed

text \<open>A name that no class passes is not written.\<close>

lemma register_internal_other_name:
  assumes others: "\<forall>(k, c) \<in> set internalFormElements_table. c \<noteq> Spinner \<longrightarrow>
      toLowerCase (registeredAs (formElement_class absentName registrations c)) = k"
    and "\<forall>(k, c) \<in> set internalFormElements_table. c \<noteq> Spinner \<longrightarrow> k \<noteq> name"
    and "name \<noteq> toLowerCase (absentName Spinner)"
  shows "registeredFormElements
           (register_internal (internalFormElements_initial absentName registrations) s) name =
         registeredFormElements s name"
proof (rule register_internal_unwritten)
  note names = others [unfolded internalFormElements_table_def, simplified]
  note keys = assms(2) [unfolded internalFormElements_table_def, simplified]
  from names keys assms(3)
  show "\<forall>(k, c) \<in> set (internalFormElements_initial absentName registrations).
      toLowerCase (registeredAs c) \<noteq> name"
    unfolding internal_table_split by (auto simp: spinner_class)
qed

lemma other_keys:
  "\<forall>(k, c) \<in> set internalFormElements_table. c \<noteq> Spinner \<longrightarrow> k \<noteq> ''spinner''"
  "\<forall>(k, c) \<in> set internalFormElements_table. c \<noteq> Spinner \<longrightarrow> k \<noteq> ''spiinner''"
  by (simp_all add: internalFormElements_table_def)

text \<open>The errors the lines of an entry can throw.\<close>

lemma lines_errors:
  "fst (snd (validation_block env d)) = Inl err \<Longrightarrow>
     err = TypeError \<or> err = SyntaxError \<or> (\<exists>n. err = Raised n)"
  "userdata_calls d = Inl err \<Longrightarrow> err = TypeError"
proof -
  show "err = TypeError \<or> err = SyntaxError \<or> (\<exists>n. err = Raised n)"
    if "fst (snd (validation_block env d)) = Inl err"
  proof (cases "fd_validation d")
    case None
    with that show ?thesis by (simp add: validation_block_def)
  next
    case (Some v)
    show ?thesis
    proof (cases "sync_validator env v")
      case (Inl e)
      with validation_block_sync(1) [OF Some Inl] that have "sync_validator env v = Inl err"
        by simp
      then show ?thesis
        by (auto simp: sync_validator_def Let_def
            split: if_splits js_value.splits member.splits)
    next
      case (Inr r)
      obtain validator1 logged1 where "r = (validator1, logged1)" by (cases r)
      with validation_block_sync(2) [OF Some, of env validator1 logged1] Inr that
      show ?thesis by simp
    qed
  qed
  show "err = TypeError" if "userdata_calls d = Inl err"
    using that by (auto simp: userdata_calls_def split: option.splits js_object.splits)
qed

text \<open>An unknown-field-type error is thrown for a name \<open>in\<close> does not find.\<close>

lemma build_field_unknown_only:
  assumes "build_field env s entry = (Threw (UnknownFieldType x), s')"
  shows "\<not> has_property (registeredFormElements s) x"
proof -
  obtain key d where entry: "entry = (key, d)" by (cases entry)
  show ?thesis
  proof (cases "fd_type d")
    case (JStr t)
    show ?thesis
    proof (cases "has_property (registeredFormElements s) (toLowerCase t)")
      case False
      with JStr assms entry show ?thesis by (simp add: build_field_unknown)
    next
      case True
      show ?thesis
      proof (cases "registeredFormElements s (toLowerCase t)")
        case None
        with JStr True assms entry show ?thesis by (simp add: build_field_inherited)
      next
        case (Some h)
        show ?thesis
        proof (cases "form s")
          case None
          with JStr Some True assms entry show ?thesis
            by (simp add: build_field_def Let_def)
        next
          case f: (Some f)
          show ?thesis
          proof (cases "formElements s")
            case None
            with JStr Some f True assms entry show ?thesis
              by (simp add: build_field_def Let_def)
          next
            case els: (Some els)
            show ?thesis
            proof (cases "element (initElement h (toLowerCase t) d key)")
              case None
              with build_field_known [OF JStr Some f els, of env key] assms entry
              show ?thesis by simp
            next
              case w: (Some w)
              from build_field_element [OF JStr Some f els w, of env] assms entry
              have "fst (snd (validation_block env d)) = Inl (UnknownFieldType x)
                  \<or> userdata_calls d = Inl (UnknownFieldType x)"
                by (cases "lines_return env d") auto
              with lines_errors(1) [of env d "UnknownFieldType x"]
                lines_errors(2) [of d "UnknownFieldType x"]
              show ?thesis by auto
            qed
          qed
        qed
      qed
    qed
  qed (use assms entry in \<open>auto simp: build_field_no_string\<close>)
qed

lemma build_fields_unknown_only:
  "build_fields env fd s = (Threw (UnknownFieldType x), s') \<Longrightarrow>
   \<not> has_property (registeredFormElements s) x"
proof (induction fd arbitrary: s)
  case Nil
  then show ?case by simp
next
  case (Cons entry rest)
  obtain o1 s1 where step: "build_field env s entry = (o1, s1)"
    by (cases "build_field env s entry")
  then have "loop_frame s s1" by (rule build_field_frame)
  then have reg: "registeredFormElements s1 = registeredFormElements s"
    unfolding loop_frame_def by simp
  show ?case
  proof (cases o1)
    case Done
    with Cons.prems step have "build_fields env rest s1 = (Threw (UnknownFieldType x), s')"
      by simp
    from Cons.IH [OF this] reg show ?thesis by simp
  next
    case (Threw e)
    with Cons.prems step have "build_field env s entry = (Threw (UnknownFieldType x), s1)"
      by simp
    then show ?thesis by (rule build_field_unknown_only)
  qed
qed

lemma applyFormData_unknown_only:
  assumes "fst (applyFormData env (Some fd) s) = Threw (UnknownFieldType x)"
  shows "\<not> has_property
           (registeredFormElements (if formElements s = None then init s else s)) x"
proof -
  let ?start = "new_form env fd (dispose_old (if formElements s = None then init s else s))"
  have reg: "registeredFormElements ?start =
      registeredFormElements (if formElements s = None then init s else s)"
    and f: "form ?start \<noteq> None"
    using start_fields(2,6) [where s = s and env = env and fd = fd] by simp_all
  obtain o2 s2 where loop: "build_fields env fd ?start = (o2, s2)"
    by (cases "build_fields env fd ?start")
  show ?thesis
  proof (cases o2)
    case Done
    from loop have "loop_frame ?start s2" by (rule build_fields_frame)
    with f obtain f2 where "form s2 = Some f2" unfolding loop_frame_def by auto
    then have "fst (render_form s2) = Done \<or> fst (render_form s2) = Threw TypeError"
      by (cases "list_all item_validates (items f2)")
         (simp_all add: render_form_Done render_form_throws)
    with assms loop Done show ?thesis by (auto simp: applyFormData_Some)
  next
    case (Threw e)
    with assms loop have "build_fields env fd ?start = (Threw (UnknownFieldType x), s2)"
      by (simp add: applyFormData_Some)
    from build_fields_unknown_only [OF this] reg show ?thesis by simp
  qed
qed

text \<open>
  Claim C10, as the code has it. The internal table lists the class \<open>Spinner\<close>
  under the key \<open>spiinner\<close> and has no key \<open>spinner\<close>; but \<open>_init\<close> registers a class
  by calling its \<open>register()\<close>, which passes a name of its own and does not see
  the key. Take the first dialog of an application: nothing has been registered,
  and the other classes register under the keys they are listed at. A field
  whose down-cased type is \<open>spinner\<close> and which the loop reaches makes
  \<open>_applyFormData\<close> throw "Field type spinner is unknown" when the name
  \<open>Spinner.register()\<close> passes is not \<open>spinner\<close>; when it is, the type is registered
  and no such error is thrown. The key \<open>spiinner\<close> is a registered type only if
  that is the name passed.
\<close>

theorem spinner_field_on_first_dialog:
  fixes s :: state and env :: environment
  assumes table: "internalFormElements s = Some (internalFormElements_initial absentName registrations)"
    and others: "\<forall>(k, c) \<in> set internalFormElements_table. c \<noteq> Spinner \<longrightarrow>
       toLowerCase (registeredAs (formElement_class absentName registrations c)) = k"
    and fresh: "registeredFormElements s = Map.empty" "formElements s = None"
    and spinner: "fd_type d = JStr t" "toLowerCase t = ''spinner''"
    and before: "build_fields env before
       (new_form env (before @ (key, d) # rest) (dispose_old (init s))) = (Done, sb)"
  shows "(toLowerCase (absentName Spinner) \<noteq> ''spinner'' \<longrightarrow>
            applyFormData env (Some (before @ (key, d) # rest)) s =
              (Threw (UnknownFieldType ''spinner''), sb)
          \<and> message (UnknownFieldType ''spinner'') = Some ''Field type spinner is unknown'')
       \<and> (toLowerCase (absentName Spinner) = ''spinner'' \<longrightarrow>
            registeredFormElements (init s) ''spinner'' = Some (registrations Spinner)
          \<and> fst (applyFormData env (Some (before @ (key, d) # rest)) s) \<noteq>
              Threw (UnknownFieldType ''spinner''))
       \<and> map_of internalFormElements_table ''spiinner'' = Some Spinner
       \<and> map_of internalFormElements_table ''spinner'' = None
       \<and> (registeredFormElements (init s) ''spiinner'' \<noteq> None \<longleftrightarrow>
            toLowerCase (absentName Spinner) = ''spiinner'')"
proof -
  let ?fd = "before @ (key, d) # rest"
  let ?s1 = "s\<lparr> formElements := Some Map.empty \<rparr>"
  let ?start = "new_form env ?fd (dispose_old (init s))"
  have s0: "(if formElements s = None then init s else s) = init s"
    using fresh(2) by simp
  have reg: "registeredFormElements (init s) =
      registeredFormElements
        (register_internal (internalFormElements_initial absentName registrations) ?s1)"
    using table by (rule init_registry)
  have start: "registeredFormElements ?start = registeredFormElements (init s)"
    using start_fields(6) [where s = s and env = env and fd = ?fd] s0 by simp
  have misspelt: "''spiinner'' \<notin> dom (registeredFormElements ?s1)"
    using fresh(1) by simp
  have registered: "registeredFormElements (init s) (toLowerCase (absentName Spinner)) =
      Some (registrations Spinner)"
    unfolding reg using others misspelt by (rule register_internal_spinner)
  have unknown: "applyFormData env (Some ?fd) s = (Threw (UnknownFieldType ''spinner''), sb)"
    if "toLowerCase (absentName Spinner) \<noteq> ''spinner''"
  proof -
    have "registeredFormElements (init s) ''spinner'' = registeredFormElements ?s1 ''spinner''"
      unfolding reg using others other_keys(1) that [symmetric]
      by (rule register_internal_other_name)
    with fresh(1) start have "\<not> has_property (registeredFormElements ?start) (toLowerCase t)"
      by (simp add: spinner(2) has_property_def inherited_names_def domIff)
    from build_fields_first_failure(2) [OF before spinner(1) this, of key rest]
    show ?thesis
      using s0 by (simp add: applyFormData_Some spinner(2))
  qed
  have known: "fst (applyFormData env (Some ?fd) s) \<noteq> Threw (UnknownFieldType ''spinner'')"
    if "toLowerCase (absentName Spinner) = ''spinner''"
  proof
    assume "fst (applyFormData env (Some ?fd) s) = Threw (UnknownFieldType ''spinner'')"
    then have "\<not> has_property (registeredFormElements (init s)) ''spinner''"
      using applyFormData_unknown_only [of env ?fd s "''spinner''"] s0 by simp
    with registered that show False
      by (simp add: has_property_def domI)
  qed
  have key: "registeredFormElements (init s) ''spiinner'' \<noteq> None \<longleftrightarrow>
      toLowerCase (absentName Spinner) = ''spiinner''"
  proof (cases "toLowerCase (absentName Spinner) = ''spiinner''")
    case True
    with registered show ?thesis by simp
  next
    case False
    have "registeredFormElements (init s) ''spiinner'' = registeredFormElements ?s1 ''spiinner''"
      unfolding reg using others other_keys(2) False [symmetric]
      by (rule register_internal_other_name)
    with fresh(1) False show ?thesis by simp
  qed
  have listed: "map_of internalFormElements_table ''spiinner'' = Some Spinner"
    "map_of internalFormElements_table ''spinner'' = None"
    by (simp_all add: internalFormElements_table_def)
  have registered': "registeredFormElements (init s) ''spinner'' = Some (registrations Spinner)"
    if "toLowerCase (absentName Spinner) = ''spinner''"
    using registered that by simp
  from unknown known registered' key listed show ?thesis
    by simp
qed

lemma listed_names:
  "\<forall>(k, c) \<in> set internalFormElements_table. c \<noteq> Spinner \<longrightarrow>
     toLowerCase (registeredAs (formElement_class listed_name registrations c)) = k"
  "\<forall>(k, c) \<in> set internalFormElements_table. c \<noteq> Spinner \<longrightarrow>
     toLowerCase (registeredAs (formElement_class class_name registrations c)) = k"
  "toLowerCase (listed_name Spinner) = ''spiinner''"
  "toLowerCase (class_name Spinner) = ''spinner''"
  by (simp_all add: internalFormElements_table_def formElement_class_def listed_name_def
      class_name_def lower_defs)

text \<open>
  A field of type \<open>Spinner\<close> on the first dialog of two applications: one whose
  spinner class registers as \<open>spiinner\<close>, and one whose spinner class registers
  as \<open>spinner\<close>.
\<close>

theorem spinner_field_on_first_dialog_witness:
  "fst (applyFormData sample_env (Some [(''quantity'', field_of_type ''Spinner'')]) listed_dialog) =
     Threw (UnknownFieldType ''spinner'')
   \<and> fst (applyFormData sample_env (Some [(''quantity'', field_of_type ''Spinner'')]) new_dialog) \<noteq>
     Threw (UnknownFieldType ''spinner'')"
proof -
  have spinner: "fd_type (field_of_type ''Spinner'') = JStr ''Spinner''"
    "toLowerCase ''Spinner'' = ''spinner''"
    by (simp_all add: field_of_type_def toLowerCase_samples)
  have before: "build_fields sample_env []
      (new_form sample_env ([] @ (''quantity'', field_of_type ''Spinner'') # [])
         (dispose_old (init s))) =
      (Done, new_form sample_env ([] @ (''quantity'', field_of_type ''Spinner'') # [])
         (dispose_old (init s)))" for s
    by simp
  have listed: "internalFormElements listed_dialog =
      Some (internalFormElements_initial listed_name (\<lambda>c. plain_handlers (class_name c)))"
    "registeredFormElements listed_dialog = Map.empty" "formElements listed_dialog = None"
    by (simp_all add: listed_dialog_def new_dialog_def)
  have new: "internalFormElements new_dialog =
      Some (internalFormElements_initial class_name (\<lambda>c. plain_handlers (class_name c)))"
    "registeredFormElements new_dialog = Map.empty" "formElements new_dialog = None"
    by (simp_all add: new_dialog_def)
  from spinner_field_on_first_dialog [OF listed(1) listed_names(1) listed(2,3) spinner before]
    spinner_field_on_first_dialog [OF new(1) listed_names(2) new(2,3) spinner before]
  show ?thesis
    by (simp add: listed_names(3,4))
qed

text \<open>
  Claim C10 as it is written speaks of every map with such an entry. Take the
  application whose spinner class registers as \<open>spiinner\<close>. With handlers
  registered under \<open>Spinner\<close> by the user, before the first dialog or after it,
  the field is built; and behind an entry without a type the error is the one
  of that entry.
\<close>

theorem spinner_field_is_not_always_unknown:
  "fst (applyFormData sample_env (Some [(''quantity'', field_of_type ''Spinner'')])
          (registerFormElementHandlers ''Spinner'' (plain_handlers ''MySpinner'') listed_dialog)) = Done
   \<and> fst (applyFormData sample_env (Some [(''quantity'', field_of_type ''Spinner'')])
          (registerFormElementHandlers ''Spinner'' (plain_handlers ''MySpinner'')
             (init listed_dialog))) = Done
   \<and> fst (applyFormData sample_env
          (Some [(''a'', no_field), (''quantity'', field_of_type ''Spinner'')]) listed_dialog) =
       Threw MissingTypeMember"
proof -
  let ?fd = "[(''quantity'', field_of_type ''Spinner'')]"
  let ?mine = "plain_handlers ''MySpinner''"
  let ?s1 = "registerFormElementHandlers ''Spinner'' ?mine listed_dialog"
  let ?s2 = "registerFormElementHandlers ''Spinner'' ?mine (init listed_dialog)"
  have lines: "\<forall>(key, d) \<in> set ?fd. lines_return sample_env d"
    by (simp add: lines_return_def validation_block_def userdata_calls_def field_of_type_def
        no_field_def)
  have built: "fst (applyFormData sample_env (Some ?fd) s) = Done"
    if "registeredFormElements (if formElements s = None then init s else s) ''spinner'' =
      Some ?mine" for s
  proof -
    let ?start = "new_form sample_env ?fd
        (dispose_old (if formElements s = None then init s else s))"
    have reg: "registeredFormElements ?start ''spinner'' = Some ?mine"
      and f: "form ?start = Some \<lparr> fid = Suc (nextId s), items = [], owned = [] \<rparr>"
      and e: "formElements ?start \<noteq> None"
      using start_fields(2,5,6) [where s = s and env = sample_env and fd = ?fd] that
      by simp_all
    then obtain els where els: "formElements ?start = Some els" by auto
    have t: "fd_type (field_of_type ''Spinner'') = JStr ''Spinner''"
      by (simp add: field_of_type_def)
    have w: "element (initElement ?mine (toLowerCase ''Spinner'') (field_of_type ''Spinner'')
        ''quantity'') = Some \<lparr> wclass = ''MySpinner'', wcalls = [] \<rparr>"
      by (simp add: plain_handlers_def)
    from build_field_element [OF t reg [folded toLowerCase_samples(1)] f els w, of sample_env]
      lines
    obtain sa where sa: "build_field sample_env ?start (''quantity'', field_of_type ''Spinner'') =
        (Done, sa)"
      and fa: "form sa =
        Some \<lparr> fid = Suc (nextId s),
               items = [FormItem (nextId ?start) (JStr []) NoValidator], owned = [] \<rparr>"
      by (auto simp: plain_handlers_def field_of_type_def no_field_def validation_block_def
          sample_env_def)
    have "fst (render_form sa) = Done"
      using render_form_Done [OF fa] by simp
    with sa show ?thesis
      by (simp add: applyFormData_Some)
  qed
  have one: "fst (applyFormData sample_env (Some ?fd) ?s1) = Done"
  proof (rule built)
    have "registeredFormElements ?s1 (toLowerCase (listed_name Spinner)) = None"
      by (simp add: registerFormElementHandlers_def listed_dialog_def new_dialog_def
          toLowerCase_samples listed_names)
    have table: "internalFormElements ?s1 =
        Some (internalFormElements_initial listed_name (\<lambda>c. plain_handlers (class_name c)))"
      by (simp add: registerFormElementHandlers_def listed_dialog_def)
    have "registeredFormElements (init ?s1) ''spinner'' =
        registeredFormElements (?s1\<lparr> formElements := Some Map.empty \<rparr>) ''spinner''"
      unfolding init_registry [OF table]
      using listed_names(1) other_keys(1)
      by (rule register_internal_other_name) (simp add: listed_names)
    then show "registeredFormElements (if formElements ?s1 = None then init ?s1 else ?s1)
        ''spinner'' = Some ?mine"
      by (simp add: registerFormElementHandlers_def listed_dialog_def new_dialog_def
          toLowerCase_samples)
  qed
  have two: "fst (applyFormData sample_env (Some ?fd) ?s2) = Done"
  proof (rule built)
    have "formElements (init listed_dialog) = Some Map.empty"
      by (subst init_normal) simp
    then show "registeredFormElements (if formElements ?s2 = None then init ?s2 else ?s2)
        ''spinner'' = Some ?mine"
      by (simp add: registerFormElementHandlers_def toLowerCase_samples)
  qed
  have three: "fst (applyFormData sample_env
      (Some [(''a'', no_field), (''quantity'', field_of_type ''Spinner'')]) listed_dialog) =
      Threw MissingTypeMember"
    by (simp add: applyFormData_Some build_field_no_string no_field_def)
  from one two three show ?thesis by simp
qed


subsection \<open>What \<open>_init\<close> does to a registration of the user\<close>

text \<open>
  The guard of \<open>_init\<close> works for a class that is listed under the name it
  registers: handlers the user registered under a type are still in the table
  after \<open>_init\<close> when every class that registers as that type is listed under it.
\<close>

lemma init_keeps_registration_under_listed_name:
  assumes "internalFormElements s = Some table"
    and "registeredFormElements s ft = Some h"
    and "\<forall>(k, c) \<in> set table. toLowerCase (registeredAs c) = ft \<longrightarrow> k = ft"
  shows "registeredFormElements (init s) ft = Some h"
  unfolding init_registry [OF assms(1)]
  using assms(2,3) by (intro register_internal_keeps) simp_all

lemma registerFormElementHandlers_stores:
  "registeredFormElements (registerFormElementHandlers fieldType hs s) =
     (registeredFormElements s)(toLowerCase fieldType \<mapsto> hs)"
  by (simp add: registerFormElementHandlers_def)

lemma init_once:
  "internalFormElements (init s) = None"
  "registeredFormElements (init (init s)) = registeredFormElements (init s)"
proof -
  show once: "internalFormElements (init s) = None"
    by (subst init_normal) simp
  then show "registeredFormElements (init (init s)) = registeredFormElements (init s)"
    by (simp add: init_def [of "init s"])
qed

text \<open>
  Claim C8, where the code departs from it. The comment in \<open>_init\<close> says "don't
  overwrite a user-provided registration", and the guard tests the key under
  which a class is listed. The spinner is listed under \<open>spiinner\<close>. When the other
  classes register under the keys they are listed at and nothing is written
  under \<open>spiinner\<close>, the guard lets \<open>Spinner.register()\<close> run, and the handlers the
  user registered under the name that function passes are replaced by those of
  the class.
\<close>

theorem init_replaces_spinner_registration:
  assumes table: "internalFormElements s = Some (internalFormElements_initial absentName registrations)"
    and others: "\<forall>(k, c) \<in> set internalFormElements_table. c \<noteq> Spinner \<longrightarrow>
       toLowerCase (registeredAs (formElement_class absentName registrations c)) = k"
    and user: "registeredFormElements s (toLowerCase (absentName Spinner)) = Some mine"
    and misspelt: "''spiinner'' \<notin> dom (registeredFormElements s)"
  shows "registeredFormElements (init s) (toLowerCase (absentName Spinner)) =
           Some (registrations Spinner)
       \<and> toLowerCase (absentName Spinner) \<noteq> ''spiinner''
       \<and> internalFormElements (init s) = None"
proof -
  let ?s1 = "s\<lparr> formElements := Some Map.empty \<rparr>"
  have "''spiinner'' \<notin> dom (registeredFormElements ?s1)"
    using misspelt by simp
  with others have "registeredFormElements
      (register_internal (internalFormElements_initial absentName registrations) ?s1)
      (toLowerCase (absentName Spinner)) = Some (registrations Spinner)"
    by (rule register_internal_spinner)
  then have "registeredFormElements (init s) (toLowerCase (absentName Spinner)) =
      Some (registrations Spinner)"
    unfolding init_registry [OF table] .
  moreover from user misspelt have "toLowerCase (absentName Spinner) \<noteq> ''spiinner''"
    by auto
  ultimately show ?thesis
    using init_once(1) [of s] by simp
qed

text \<open>
  The user registers handlers for \<open>Spinner\<close> before the first dialog of an
  application whose spinner class registers as \<open>spinner\<close>: after \<open>_init\<close> the
  handlers are those of the class.
\<close>

theorem init_replaces_spinner_registration_witness:
  "registeredFormElements
       (registerFormElementHandlers ''Spinner'' (plain_handlers ''Mine'') new_dialog) ''spinner'' =
     Some (plain_handlers ''Mine'')
   \<and> registeredFormElements
       (init (registerFormElementHandlers ''Spinner'' (plain_handlers ''Mine'') new_dialog)) ''spinner'' =
     Some (plain_handlers ''spinner'')
   \<and> plain_handlers ''spinner'' \<noteq> plain_handlers ''Mine''"
proof -
  let ?s = "registerFormElementHandlers ''Spinner'' (plain_handlers ''Mine'') new_dialog"
  have table: "internalFormElements ?s =
      Some (internalFormElements_initial class_name (\<lambda>c. plain_handlers (class_name c)))"
    by (simp add: registerFormElementHandlers_def new_dialog_def)
  have user: "registeredFormElements ?s (toLowerCase (class_name Spinner)) =
      Some (plain_handlers ''Mine'')"
    by (simp add: registerFormElementHandlers_def toLowerCase_samples listed_names(4))
  have misspelt: "''spiinner'' \<notin> dom (registeredFormElements ?s)"
    by (simp add: registerFormElementHandlers_def new_dialog_def toLowerCase_samples)
  have "initElement (plain_handlers ''spinner'') [] undefined [] \<noteq>
        initElement (plain_handlers ''Mine'') [] undefined []"
    by (simp add: plain_handlers_def)
  then have differ: "plain_handlers ''spinner'' \<noteq> plain_handlers ''Mine''"
    by auto
  from init_replaces_spinner_registration [OF table listed_names(2) user misspelt] user differ
  show ?thesis
    by (simp add: class_name_def toLowerCase_samples)
qed

text \<open>
  The same registration for \<open>TextArea\<close>, which is listed under the name it
  registers, is kept.
\<close>

lemma textarea_registration_is_kept:
  "registeredFormElements
     (init (registerFormElementHandlers ''TextArea'' (plain_handlers ''Mine'') new_dialog))
     ''textarea'' = Some (plain_handlers ''Mine'')"
proof (rule init_keeps_registration_under_listed_name)
  show "internalFormElements (registerFormElementHandlers ''TextArea'' (plain_handlers ''Mine'')
      new_dialog) =
      Some (internalFormElements_initial class_name (\<lambda>c. plain_handlers (class_name c)))"
    by (simp add: registerFormElementHandlers_def new_dialog_def)
  show "registeredFormElements (registerFormElementHandlers ''TextArea'' (plain_handlers ''Mine'')
      new_dialog) ''textarea'' = Some (plain_handlers ''Mine'')"
    by (simp add: registerFormElementHandlers_def toLowerCase_samples)
  show "\<forall>(k, c) \<in> set (internalFormElements_initial class_name
      (\<lambda>c. plain_handlers (class_name c))).
      toLowerCase (registeredAs c) = ''textarea'' \<longrightarrow> k = ''textarea''"
    by (simp add: internalFormElements_initial_def internalFormElements_table_def
        formElement_class_def class_name_def lower_defs)
qed

subsection \<open>Applying formData again\<close>

lemma build_field_formElements:
  assumes "build_field env s (key, d) = (out, s')" and "formElements s = Some els"
  shows "\<exists>els'. formElements s' = Some els' \<and> (\<forall>k. k \<noteq> key \<longrightarrow> els' k = els k)"
proof (cases "fd_type d")
  case (JStr t)
  show ?thesis
  proof (cases "registeredFormElements s (toLowerCase t)")
    case None
    with JStr assms have "s' = s"
      by (cases "has_property (registeredFormElements s) (toLowerCase t)")
         (simp_all add: build_field_unknown build_field_inherited)
    with assms(2) show ?thesis by simp
  next
    case (Some h)
    show ?thesis
    proof (cases "form s")
      case None
      with JStr Some assms have "s' = s"
        by (auto simp: build_field_def Let_def split: if_splits)
      with assms(2) show ?thesis by simp
    next
      case f: (Some f)
      show ?thesis
      proof (cases "element (initElement h (toLowerCase t) d key)")
        case None
        with build_field_known [OF JStr Some f assms(2), of env key] assms show ?thesis
          by auto
      next
        case w: (Some w)
        from build_field_element [OF JStr Some f assms(2) w, of env] assms(1)
        have "formElements s' = Some (els(key \<mapsto> nextId s)) \<or> formElements s' = Some els"
          by (cases "lines_return env d") auto
        then show ?thesis by auto
      qed
    qed
  qed
qed (use assms in \<open>auto simp: build_field_no_string\<close>)

lemma build_fields_formElements:
  "build_fields env fd s = (out, s') \<Longrightarrow> formElements s = Some els \<Longrightarrow>
   \<exists>els'. formElements s' = Some els' \<and> (\<forall>k. k \<notin> fst ` set fd \<longrightarrow> els' k = els k)"
proof (induction fd arbitrary: s els)
  case Nil
  then show ?case by simp
next
  case (Cons entry rest)
  obtain key d where entry: "entry = (key, d)" by (cases entry)
  obtain o1 s1 where step: "build_field env s (key, d) = (o1, s1)"
    by (cases "build_field env s (key, d)")
  from build_field_formElements [OF step Cons.prems(2)] obtain els1 where
    els1: "formElements s1 = Some els1" "\<forall>k. k \<noteq> key \<longrightarrow> els1 k = els k"
    by blast
  show ?case
  proof (cases o1)
    case Done
    with Cons.prems(1) step entry have "build_fields env rest s1 = (out, s')" by simp
    from Cons.IH [OF this els1(1)] obtain els' where
      "formElements s' = Some els'" "\<forall>k. k \<notin> fst ` set rest \<longrightarrow> els' k = els1 k"
      by blast
    with els1(2) entry show ?thesis by auto
  next
    case (Threw e)
    with Cons.prems(1) step entry have "s' = s1" by simp
    with els1 entry show ?thesis by auto
  qed
qed

text \<open>
  Claim C1, where the code departs from it. \<open>_formElements\<close> is set to an empty
  map in \<open>_init\<close> only, which runs once for a dialog. When a map is applied to a
  dialog that has had a map applied before, the elements of the earlier form
  are still in \<open>_formElements\<close> afterwards, under every key the new map does not
  have, whether the method returns or throws.
\<close>

theorem reapplied_formData_keeps_earlier_elements:
  assumes "applyFormData env (Some fd) s = (out, s')"
    and "formElements s = Some els"
  shows "\<exists>els'. formElements s' = Some els'
           \<and> (\<forall>key. key \<notin> fst ` set fd \<longrightarrow> els' key = els key)"
proof -
  let ?start = "new_form env fd (dispose_old (if formElements s = None then init s else s))"
  have start: "formElements ?start = Some els" and f: "form ?start \<noteq> None"
    using start_fields(2,8) [where s = s and env = env and fd = fd] assms(2) by simp_all
  obtain o2 s2 where loop: "build_fields env fd ?start = (o2, s2)"
    by (cases "build_fields env fd ?start")
  from build_fields_formElements [OF loop start] obtain els' where
    els': "formElements s2 = Some els'" "\<forall>k. k \<notin> fst ` set fd \<longrightarrow> els' k = els k"
    by blast
  from loop have "loop_frame ?start s2" by (rule build_fields_frame)
  with f obtain f2 where f2: "form s2 = Some f2" unfolding loop_frame_def by auto
  have "formElements s' = formElements s2"
    using assms(1) loop render_form_fields(4) [OF f2]
    by (cases o2) (auto simp: applyFormData_Some)
  with els' show ?thesis by auto
qed

text \<open>
  The sample map is applied, and then a map with the one field \<open>email\<close>: the new
  form has one element, and \<open>_formElements\<close> still has the element of the earlier
  form under \<open>username\<close>.
\<close>

theorem reapplied_formData_keeps_earlier_elements_witness:
  "formElements (snd (applyFormData sample_env (Some sample_formData) ready_dialog)) =
     Some [''username'' \<mapsto> 3]
   \<and> (\<exists>els'. formElements (snd (applyFormData sample_env (Some [(''email'', email_field)])
         (snd (applyFormData sample_env (Some sample_formData) ready_dialog)))) = Some els'
       \<and> els' ''username'' = Some 3)"
proof -
  let ?s = "snd (applyFormData sample_env (Some sample_formData) ready_dialog)"
  from reapplied_formData_keeps_earlier_elements [OF prod.collapse [symmetric] sample_form_built(3),
      of sample_env "[(''email'', email_field)]"]
  obtain els' where "formElements (snd (applyFormData sample_env (Some [(''email'', email_field)]) ?s)) =
      Some els'" "\<forall>key. key \<notin> fst ` set [(''email'', email_field)] \<longrightarrow>
        els' key = [''username'' \<mapsto> 3] key"
    by blast
  then have "formElements (snd (applyFormData sample_env (Some [(''email'', email_field)]) ?s)) =
      Some els' \<and> els' ''username'' = Some 3"
    by simp
  with sample_form_built(3) show ?thesis by blast
qed

text \<open>The two applications in full.\<close>

lemma earlier_elements_stay_in_formElements:
  "fst (applyFormData sample_env (Some [(''email'', email_field)])
       (snd (applyFormData sample_env (Some sample_formData) ready_dialog))) = Done"
  "formElements (snd (applyFormData sample_env (Some [(''email'', email_field)])
       (snd (applyFormData sample_env (Some sample_formData) ready_dialog)))) =
     Some [''username'' \<mapsto> 3, ''email'' \<mapsto> 7]"
  "map_option items (form (snd (applyFormData sample_env (Some [(''email'', email_field)])
       (snd (applyFormData sample_env (Some sample_formData) ready_dialog))))) =
     Some [FormItem 7 (JStr ''E-mail'') NoValidator]"
  "model (snd (applyFormData sample_env (Some [(''email'', email_field)])
       (snd (applyFormData sample_env (Some sample_formData) ready_dialog)))) =
     Some \<lparr> mid = 4, props = [(''email'', JNull)] \<rparr>"
  by (simp_all add: eval_defs)


end
